theory Spec2Isabelle
  imports Main
begin

section \<open>Matching engine (src/config.js, src/query.js)\<close>

text \<open>
  A site as \<open>findMatches\<close> reads it: the fields \<open>url\<close>, \<open>state\<close>, \<open>city\<close>,
  \<open>industry\<close> are strings and \<open>da\<close> is a number or \<open>null\<close> (register.js stores
  \<open>site.da || null\<close>). Numbers are integers here; \<open>None\<close> is \<open>null\<close>/\<open>undefined\<close>.
\<close>

record site =
  url :: string
  state :: string
  city :: string
  industry :: string
  da :: "int option"

text \<open>The object \<open>{ ...site, matchScore: score }\<close> returned by the map callback.\<close>

record scored = site +
  matchScore :: int

datatype js_error = TypeError string | SyntaxError string | Error string

text \<open>
  \<open>RELATED_INDUSTRIES\<close> is an object literal; its own properties, in source order.
\<close>

definition RELATED_INDUSTRIES :: "(string \<times> string list) list" where
  "RELATED_INDUSTRIES =
    [(''plumbing'', [''hvac'', ''electrical'', ''construction'', ''roofing'', ''home-services'']),
     (''hvac'', [''plumbing'', ''electrical'', ''construction'', ''home-services'']),
     (''roofing'', [''construction'', ''plumbing'', ''gutters'', ''siding'']),
     (''electrical'', [''plumbing'', ''hvac'', ''construction'', ''solar'']),
     (''construction'', [''roofing'', ''plumbing'', ''hvac'', ''electrical'', ''concrete'']),
     (''landscaping'', [''tree-service'', ''lawn-care'', ''irrigation'', ''hardscaping'']),
     (''real-estate'', [''mortgage'', ''home-inspection'', ''title'', ''moving'']),
     (''dental'', [''orthodontics'', ''oral-surgery'', ''healthcare'']),
     (''legal'', [''accounting'', ''financial'', ''insurance'']),
     (''restaurant'', [''catering'', ''food-service'', ''hospitality''])]"

text \<open>
  \<open>RELATED_INDUSTRIES[a]\<close> is a property read on an ordinary object, so a name that is
  not an own property is looked up on \<open>Object.prototype\<close>. These are the names that
  \<open>Object.prototype\<close> defines; each of them holds a function or an object, none of
  which has an \<open>includes\<close> method.
\<close>

definition Object_prototype_names :: "string list" where
  "Object_prototype_names =
    [''constructor'', ''__defineGetter__'', ''__defineSetter__'', ''hasOwnProperty'',
     ''__lookupGetter__'', ''__lookupSetter__'', ''isPrototypeOf'', ''propertyIsEnumerable'',
     ''toString'', ''valueOf'', ''__proto__'', ''toLocaleString'']"

datatype property = Undefined | ArrayValue "string list" | Inherited

definition get_related :: "string \<Rightarrow> property" where
  "get_related a =
     (case map_of RELATED_INDUSTRIES a of
        Some l \<Rightarrow> ArrayValue l
      | None \<Rightarrow> if a \<in> set Object_prototype_names then Inherited else Undefined)"

text \<open>
  \<open>p?.includes(b)\<close>: \<open>undefined\<close> (falsy) when \<open>p\<close> is \<open>undefined\<close>, the membership
  test on an array, and a \<open>TypeError\<close> when \<open>p\<close> is a value without \<open>includes\<close>
  (optional chaining guards the receiver only). The result is kept as its truthiness.
\<close>

definition opt_includes :: "property \<Rightarrow> string \<Rightarrow> js_error + bool" where
  "opt_includes p b =
     (case p of
        Undefined \<Rightarrow> Inr False
      | ArrayValue l \<Rightarrow> Inr (b \<in> set l)
      | Inherited \<Rightarrow> Inl (TypeError ''includes is not a function''))"

text \<open>\<open>isRelatedIndustry(a, b)\<close>; \<open>||\<close> evaluates its right operand only when the left is falsy.\<close>

definition isRelatedIndustry :: "string \<Rightarrow> string \<Rightarrow> js_error + bool" where
  "isRelatedIndustry a b =
     (case opt_includes (get_related a) b of
        Inl e \<Rightarrow> Inl e
      | Inr True \<Rightarrow> Inr True
      | Inr False \<Rightarrow> opt_includes (get_related b) a)"

text \<open>\<open>site.da >= n\<close> for a positive \<open>n\<close>: \<open>null\<close> converts to 0 and \<open>undefined\<close> to NaN, both give false.\<close>

definition da_ge :: "int option \<Rightarrow> int \<Rightarrow> bool" where
  "da_ge d n = (case d of None \<Rightarrow> False | Some v \<Rightarrow> n \<le> v)"

text \<open>The body of the map callback of \<open>findMatches\<close>, statement by statement.\<close>

definition score_site :: "'a site_scheme \<Rightarrow> 'b site_scheme \<Rightarrow> js_error + int" where
  "score_site yourSite s =
     (let score0 = 0;
          score1 = (if state yourSite = state s then score0 + 30 else score0);
          score2 = (if city yourSite \<noteq> city s then score1 + 20 else score1)
      in case (if industry yourSite = industry s then Inr (score2 + 25)
               else case isRelatedIndustry (industry yourSite) (industry s) of
                      Inl e \<Rightarrow> Inl e
                    | Inr r \<Rightarrow> Inr (if r then score2 + 20 else score2)) of
           Inl e \<Rightarrow> Inl e
         | Inr score3 \<Rightarrow>
             (let score4 = (if da_ge (da s) 30 then score3 + 15 else score3);
                  score5 = (if da_ge (da s) 40 then score4 + 10 else score4)
              in Inr score5))"

definition annotate :: "site \<Rightarrow> int \<Rightarrow> scored" where
  "annotate s n = site.extend s (scored.fields n)"

text \<open>\<open>Array.prototype.map\<close> with a callback that may throw: the first exception ends the call.\<close>

fun map_scores :: "'a site_scheme \<Rightarrow> site list \<Rightarrow> js_error + scored list" where
  "map_scores yourSite [] = Inr []"
| "map_scores yourSite (s # ss) =
     (case score_site yourSite s of
        Inl e \<Rightarrow> Inl e
      | Inr n \<Rightarrow> (case map_scores yourSite ss of
                    Inl e \<Rightarrow> Inl e
                  | Inr rest \<Rightarrow> Inr (annotate s n # rest)))"

text \<open>
  \<open>Array.prototype.sort(cmp)\<close> is a stable sort (ECMAScript 2019 on): insertion of
  each element before the first one it does not have to follow.
\<close>

fun insert_cmp :: "('a \<Rightarrow> 'a \<Rightarrow> int) \<Rightarrow> 'a \<Rightarrow> 'a list \<Rightarrow> 'a list" where
  "insert_cmp cmp x [] = [x]"
| "insert_cmp cmp x (y # ys) =
     (if cmp x y \<le> 0 then x # y # ys else y # insert_cmp cmp x ys)"

definition sort_cmp :: "('a \<Rightarrow> 'a \<Rightarrow> int) \<Rightarrow> 'a list \<Rightarrow> 'a list" where
  "sort_cmp cmp xs = foldr (insert_cmp cmp) xs []"

definition findMatches :: "'a site_scheme \<Rightarrow> site list \<Rightarrow> js_error + scored list" where
  "findMatches yourSite allSites =
     (case map_scores yourSite (filter (\<lambda>s. url s \<noteq> url yourSite) allSites) of
        Inl e \<Rightarrow> Inl e
      | Inr ms \<Rightarrow>
          Inr (sort_cmp (\<lambda>a b. matchScore b - matchScore a)
                 (filter (\<lambda>s. matchScore s > 30) ms)))"

text \<open>
  The scoring rule as the specification words it: a relatedness relation that holds when
  either industry lists the other in the table, and a sum of independent terms.
\<close>

definition related_spec :: "string \<Rightarrow> string \<Rightarrow> bool" where
  "related_spec a b =
     ((\<exists>l. map_of RELATED_INDUSTRIES a = Some l \<and> b \<in> set l) \<or>
      (\<exists>l. map_of RELATED_INDUSTRIES b = Some l \<and> a \<in> set l))"

definition score_spec :: "'a site_scheme \<Rightarrow> 'b site_scheme \<Rightarrow> int" where
  "score_spec requester candidate =
     (if state requester = state candidate then 30 else 0) +
     (if city requester \<noteq> city candidate then 20 else 0) +
     (if industry requester = industry candidate then 25
      else if related_spec (industry requester) (industry candidate) then 20 else 0) +
     (if da_ge (da candidate) 30 then 15 else 0) +
     (if da_ge (da candidate) 40 then 10 else 0)"


text \<open>
  The candidates that the specification's \<open>rank\<close> keeps, each with its score, in the
  order of the input.
\<close>

definition rank_spec :: "'a site_scheme \<Rightarrow> site list \<Rightarrow> scored list" where
  "rank_spec y allSites =
     map (\<lambda>s. annotate s (score_spec y s))
       (filter (\<lambda>s. url s \<noteq> url y \<and> 30 < score_spec y s) allSites)"

section \<open>Strings and regular expressions of the link verifier (verify.js)\<close>

text \<open>
  Strings are lists of \<open>char\<close>, the code units from U+0000 to U+00FF; a page or a tag
  with a character beyond U+00FF is outside the model. Within that range
  \<open>String.prototype.toLowerCase\<close> changes the letters \<open>A\<close> to \<open>Z\<close> and the
  accented capitals U+00C0 to U+00DE (U+00D7, the multiplication sign, apart).
\<close>

definition lower_letters :: string where
  "lower_letters = ''abcdefghijklmnopqrstuvwxyz'' @
       [CHR 0xE0, CHR 0xE1, CHR 0xE2, CHR 0xE3, CHR 0xE4, CHR 0xE5, CHR 0xE6, CHR 0xE7,
        CHR 0xE8, CHR 0xE9, CHR 0xEA, CHR 0xEB, CHR 0xEC, CHR 0xED, CHR 0xEE, CHR 0xEF,
        CHR 0xF0, CHR 0xF1, CHR 0xF2, CHR 0xF3, CHR 0xF4, CHR 0xF5, CHR 0xF6, CHR 0xF8,
        CHR 0xF9, CHR 0xFA, CHR 0xFB, CHR 0xFC, CHR 0xFD, CHR 0xFE]"

definition upper_letters :: string where
  "upper_letters = ''ABCDEFGHIJKLMNOPQRSTUVWXYZ'' @
       [CHR 0xC0, CHR 0xC1, CHR 0xC2, CHR 0xC3, CHR 0xC4, CHR 0xC5, CHR 0xC6, CHR 0xC7,
        CHR 0xC8, CHR 0xC9, CHR 0xCA, CHR 0xCB, CHR 0xCC, CHR 0xCD, CHR 0xCE, CHR 0xCF,
        CHR 0xD0, CHR 0xD1, CHR 0xD2, CHR 0xD3, CHR 0xD4, CHR 0xD5, CHR 0xD6, CHR 0xD8,
        CHR 0xD9, CHR 0xDA, CHR 0xDB, CHR 0xDC, CHR 0xDD, CHR 0xDE]"

definition toLowerChar :: "char \<Rightarrow> char" where
  "toLowerChar c = (case map_of (zip upper_letters lower_letters) c of Some l \<Rightarrow> l | None \<Rightarrow> c)"

text \<open>
  The form on which a regular expression with the flag \<open>i\<close> compares two characters
  (\<open>Canonicalize\<close>): the upper-case letter of a lower-case one. The three characters
  of the range whose upper case is no single code unit of the range (U+00DF, and U+00B5
  and U+00FF, whose upper case lies beyond U+00FF and is the upper case of no other
  character of the range) stand for themselves, which no comparison notices.
\<close>

definition toUpperChar :: "char \<Rightarrow> char" where
  "toUpperChar c = (case map_of (zip lower_letters upper_letters) c of Some u \<Rightarrow> u | None \<Rightarrow> c)"

definition toLowerCase :: "string \<Rightarrow> string" where
  "toLowerCase s = map toLowerChar s"

text \<open>
  The white space of the class \<^verbatim>\<open>\s\<close>, of \<open>String.prototype.trim\<close> and of
  \<open>parseInt\<close>, which is one set: tab, line feed, vertical tab, form feed, carriage
  return, space and the no-break space U+00A0 (the others lie beyond U+00FF).
\<close>

definition whitespace :: "char list" where
  "whitespace = [CHR 0x09, CHR 0x0A, CHR 0x0B, CHR 0x0C, CHR 0x0D, CHR 0x20, CHR 0xA0]"

definition trim :: "string \<Rightarrow> string" where
  "trim s = rev (dropWhile (\<lambda>c. c \<in> set whitespace)
                  (rev (dropWhile (\<lambda>c. c \<in> set whitespace) s)))"

fun startsWith :: "string \<Rightarrow> string \<Rightarrow> bool" where
  "startsWith s [] = True"
| "startsWith [] (p # ps) = False"
| "startsWith (c # cs) (p # ps) = (c = p \<and> startsWith cs ps)"

text \<open>\<open>s.includes(t)\<close>: \<open>t\<close> occurs in \<open>s\<close> as a contiguous run.\<close>

fun str_includes :: "string \<Rightarrow> string \<Rightarrow> bool" where
  "str_includes [] t = (t = [])"
| "str_includes (c # cs) t = (startsWith (c # cs) t \<or> str_includes cs t)"

text \<open>Decimal rendering of a number inside a template literal.\<close>

fun show_nat :: "nat \<Rightarrow> string" where
  "show_nat n =
     (if n < 10 then [''0123456789'' ! n]
      else show_nat (n div 10) @ [''0123456789'' ! (n mod 10)])"

declare show_nat.simps [simp del]

text \<open>
  The two regular expressions of \<open>extractLinks\<close> use literals, character classes,
  greedy \<open>*\<close> and \<open>+\<close> on a class, concatenation and capture groups, under the flag
  \<open>i\<close>. A literal matches a character with the same upper-case form.
\<close>

datatype cls = Lit char | Space | NoneOf "char list" | OneOf "char list"

fun in_cls :: "cls \<Rightarrow> char \<Rightarrow> bool" where
  "in_cls (Lit c) x = (toUpperChar x = toUpperChar c)"
| "in_cls Space x = (x \<in> set whitespace)"
| "in_cls (NoneOf cs) x = (x \<notin> set cs)"
| "in_cls (OneOf cs) x = (x \<in> set cs)"

datatype rx = Eps | Atom cls | Star cls | Plus cls | Seq rx rx | Group rx

text \<open>
  The remainders a greedy repetition of a class can leave, the longest repetition first:
  the order in which a backtracking matcher tries them.
\<close>

fun greedy :: "cls \<Rightarrow> string \<Rightarrow> string list" where
  "greedy c [] = [[]]"
| "greedy c (x # xs) = (if in_cls c x then greedy c xs @ [x # xs] else [x # xs])"

text \<open>
  All the ways an expression matches a prefix of \<open>s\<close>, in the matcher's order of
  preference, each with its captured groups (numbered by their opening parenthesis) and
  the rest of the input. The head of the list is the match JavaScript reports.
\<close>

fun match :: "rx \<Rightarrow> string \<Rightarrow> (string list \<times> string) list" where
  "match Eps s = [([], s)]"
| "match (Atom c) s =
     (case s of [] \<Rightarrow> [] | x # xs \<Rightarrow> if in_cls c x then [([], xs)] else [])"
| "match (Star c) s = map (Pair []) (greedy c s)"
| "match (Plus c) s =
     (case s of [] \<Rightarrow> []
      | x # xs \<Rightarrow> if in_cls c x then map (Pair []) (greedy c xs) else [])"
| "match (Seq a b) s =
     concat (map (\<lambda>(c1, r1). map (\<lambda>(c2, r2). (c1 @ c2, r2)) (match b r1)) (match a s))"
| "match (Group r) s =
     map (\<lambda>(groups, rest). (take (length s - length rest) s # groups, rest)) (match r s)"

text \<open>
  \<open>regex.exec\<close> from the current position: the first match at the leftmost position
  that has one, with its groups and the input after the match (the next \<open>lastIndex\<close>).
\<close>

fun exec :: "rx \<Rightarrow> string \<Rightarrow> (string list \<times> string) option" where
  "exec r [] = (case match r [] of [] \<Rightarrow> None | m # _ \<Rightarrow> Some m)"
| "exec r (c # cs) = (case match r (c # cs) of [] \<Rightarrow> exec r cs | m # _ \<Rightarrow> Some m)"

definition cat :: "rx list \<Rightarrow> rx" where
  "cat rs = foldr Seq rs Eps"

definition quotes :: "char list" where
  "quotes = [CHR 0x22, CHR 0x27]"

text \<open>\<^verbatim>\<open>/<a\s+([^>]*href\s*=\s*["']([^"']+)["'][^>]*)>([^<]*)<\/a>/gi\<close>\<close>

definition linkRegex :: rx where
  "linkRegex = cat
    [Atom (Lit CHR ''<''), Atom (Lit CHR ''a''), Plus Space,
     Group (cat [Star (NoneOf ''>''),
                 Atom (Lit CHR ''h''), Atom (Lit CHR ''r''), Atom (Lit CHR ''e''),
                 Atom (Lit CHR ''f''),
                 Star Space, Atom (Lit CHR ''=''), Star Space,
                 Atom (OneOf quotes), Group (Plus (NoneOf quotes)), Atom (OneOf quotes),
                 Star (NoneOf ''>'')]),
     Atom (Lit CHR ''>''),
     Group (Star (NoneOf ''<'')),
     Atom (Lit CHR ''<''), Atom (Lit CHR ''/''), Atom (Lit CHR ''a''), Atom (Lit CHR ''>'')]"

text \<open>\<^verbatim>\<open>/rel\s*=\s*["']([^"']+)["']/i\<close>\<close>

definition relRegex :: rx where
  "relRegex = cat
    [Atom (Lit CHR ''r''), Atom (Lit CHR ''e''), Atom (Lit CHR ''l''),
     Star Space, Atom (Lit CHR ''=''), Star Space,
     Atom (OneOf quotes), Group (Plus (NoneOf quotes)), Atom (OneOf quotes)]"

section \<open>Link verifier (verify.js)\<close>

record link =
  href :: string
  anchor :: string
  rel :: string
  isDoFollow :: bool
  isSponsored :: bool
  isUGC :: bool

text \<open>\<^verbatim>\<open>attrs.match(/rel.../i)?.[1] || ''\<close>\<close>

definition rel_of :: "string \<Rightarrow> string" where
  "rel_of attrs = (case exec relRegex attrs of Some (g # _, _) \<Rightarrow> g | _ \<Rightarrow> [])"

text \<open>
  The link pushed for one match \<open>[, attrs, href, anchor]\<close>. The flags read \<open>rel\<close> as
  written in the page; only the stored \<open>rel\<close> is lower-cased. A match of \<open>linkRegex\<close>
  always has its three groups (\<open>match_linkRegex_shape\<close> below), so the last case is
  never taken.
\<close>

definition make_link :: "string list \<Rightarrow> link" where
  "make_link groups =
     (case groups of
        attrs # h # a # _ \<Rightarrow>
          (let r = rel_of attrs
           in \<lparr>href = trim h, anchor = trim a, rel = toLowerCase r,
               isDoFollow = (\<not> str_includes r ''nofollow''),
               isSponsored = str_includes r ''sponsored'',
               isUGC = str_includes r ''ugc''\<rparr>)
      | _ \<Rightarrow> \<lparr>href = [], anchor = [], rel = [], isDoFollow = True,
               isSponsored = False, isUGC = False\<rparr>)"

text \<open>
  The \<open>while ((match = linkRegex.exec(html)) !== null)\<close> loop: each round continues after
  the previous match. It ends because every match consumes at least \<open><\<close>.
\<close>

function extractLinks :: "string \<Rightarrow> link list" where
  "extractLinks html =
     (case exec linkRegex html of
        None \<Rightarrow> []
      | Some (groups, rest) \<Rightarrow> make_link groups # extractLinks rest)"
  by pat_completeness auto
termination
proof (relation "measure length")
  show "wf (measure length)" by simp
next
  fix html :: string and x :: "string list \<times> string" and groups rest
  assume e: "exec linkRegex html = Some x" and x: "(groups, rest) = x"
  have greedy_le: "t \<in> set (greedy c s) \<Longrightarrow> length t \<le> length s" for t c s
    by (induction s) (auto split: if_splits)
  have match_le: "(g, t) \<in> set (match r s) \<Longrightarrow> length t \<le> length s" for g t r s
  proof (induction r arbitrary: g t s)
    case (Seq a b)
    then show ?case by (fastforce dest: order_trans)
  qed (auto split: list.splits if_splits dest: greedy_le le_SucI)
  obtain c R where lr: "linkRegex = Seq (Atom c) R"
    by (simp add: linkRegex_def cat_def)
  have link_lt: "(g, t) \<in> set (match linkRegex s) \<Longrightarrow> length t < length s" for g t s
    unfolding lr by (cases s) (auto split: if_splits dest!: match_le)
  have exec_lt: "exec linkRegex s = Some (g, t) \<Longrightarrow> length t < length s" for g t s
  proof (induction s)
    case Nil
    then show ?case unfolding lr by simp
  next
    case (Cons c cs)
    show ?case
    proof (cases "match linkRegex (c # cs)")
      case Nil
      with Cons show ?thesis by (auto dest: less_SucI)
    next
      case (Cons m ms)
      with Cons.prems have "(g, t) \<in> set (match linkRegex (c # cs))" by auto
      then show ?thesis by (rule link_lt)
    qed
  qed
  from e x show "(rest, html) \<in> measure length"
    by (auto dest: exec_lt)
qed

declare extractLinks.simps [simp del]

text \<open>
  The network as \<open>fetchPage\<close> sees it. \<open>protocol.get(url, ...)\<close> ends in one of three
  ways: a response (status code, \<open>Location\<close> header, body), the request's \<open>error\<close> event
  (also a synchronous throw of \<open>get\<close>, which the Promise executor turns into the same
  rejection), or the \<open>timeout\<close> event. A response is \<open>complete\<close> when its body
  arrives to the end, so that the stream emits \<open>end\<close>; when the connection closes
  before that, \<open>body\<close> is what arrived and \<open>end\<close> is never emitted.
\<close>

record response =
  statusCode :: nat
  location :: "string option"
  body :: string
  complete :: bool

datatype net_event = Response response | RequestError string | Timeout

text \<open>
  \<open>new URL(input, base)\<close> belongs to the platform and is a parameter: it gives the
  resolved \<open>href\<close> and the \<open>hostname\<close>, or \<open>None\<close> where the constructor throws.
\<close>

record parsed_url =
  url_href :: string
  hostname :: string

type_synonym url_parser = "string \<Rightarrow> string \<Rightarrow> parsed_url option"

text \<open>
  How an asynchronous call ends: its promise is fulfilled, its promise is rejected, an
  exception is raised in a callback that no promise covers, so that the promise never
  settles and the exception reaches the process as an uncaught exception, or nothing
  happens any more and the promise stays pending.
\<close>

datatype 'a outcome = Fulfilled 'a | Rejected string | Uncaught string | Pending

definition redirect_location :: "response \<Rightarrow> string option" where
  "redirect_location res =
     (if 300 \<le> statusCode res \<and> statusCode res < 400
      then (case location res of Some l \<Rightarrow> if l \<noteq> [] then Some l else None | None \<Rightarrow> None)
      else None)"

text \<open>
  \<open>fetchPage\<close> follows redirects without a bound, so the model counts requests:
  \<open>None\<close> means that the given number of requests did not reach a terminal event.
  The redirect target is computed in the response callback, outside the Promise executor
  and outside any \<open>try\<close>. The body of a 200 response is read with the listeners
  \<open>data\<close> and \<open>end\<close> only: when the connection closes before the end of the body
  neither \<open>resolve\<close> nor \<open>reject\<close> is ever called.
\<close>

fun fetchPage :: "nat \<Rightarrow> (string \<Rightarrow> net_event) \<Rightarrow> url_parser \<Rightarrow> string \<Rightarrow> string outcome option" where
  "fetchPage 0 net URL u = None"
| "fetchPage (Suc n) net URL u =
     (case net u of
        RequestError m \<Rightarrow> Some (Rejected m)
      | Timeout \<Rightarrow> Some (Rejected ''Request timed out'')
      | Response res \<Rightarrow>
          (case redirect_location res of
             Some l \<Rightarrow>
               (if startsWith l ''http'' then fetchPage n net URL l
                else (case URL l u of
                        None \<Rightarrow> Some (Uncaught ''Invalid URL'')
                      | Some p \<Rightarrow> fetchPage n net URL (url_href p)))
           | None \<Rightarrow>
               (if statusCode res \<noteq> 200
                then Some (Rejected (''HTTP '' @ show_nat (statusCode res)))
                else if complete res then Some (Fulfilled (body res))
                else Some Pending)))"

text \<open>
  The options \<open>{ dofollow, anchor, exactUrl }\<close>; \<open>None\<close> is an absent option. The
  \<open>checkedAt\<close> field of a result is the wall clock and is left out.
\<close>

record options =
  dofollow :: bool
  anchor_opt :: "string option"
  exactUrl :: "string option"

record result =
  verified :: bool
  pageUrl :: string
  targetDomain :: string
  linksFound :: "link list option"
  bestMatch :: "link option"
  error :: "string option"
  message :: string

text \<open>The filter callback: the \<open>try\<close> branch when the URL parses, the \<open>catch\<close> branch otherwise.\<close>

definition points_to :: "url_parser \<Rightarrow> string \<Rightarrow> string \<Rightarrow> link \<Rightarrow> bool" where
  "points_to URL page target l =
     (case URL (href l) page of
        Some p \<Rightarrow> str_includes (hostname p) target \<or> str_includes (href l) target
      | None \<Rightarrow> str_includes (href l) target)"

definition failure :: "string \<Rightarrow> string \<Rightarrow> link list option \<Rightarrow> string \<Rightarrow> result" where
  "failure page target found msg =
     \<lparr>verified = False, pageUrl = page, targetDomain = target, linksFound = found,
      bestMatch = None, error = None, message = msg\<rparr>"

text \<open>
  The two optional requirements, each tested on all links to the target: the message of
  the failure when the option is set (present and not empty) and no link meets it.
\<close>

definition anchor_failure :: "options \<Rightarrow> link list \<Rightarrow> string option" where
  "anchor_failure opts matchingLinks =
     (case anchor_opt opts of
        None \<Rightarrow> None
      | Some a \<Rightarrow>
          if a \<noteq> [] \<and>
             \<not> list_ex (\<lambda>l. str_includes (toLowerCase (anchor l)) (toLowerCase a)) matchingLinks
          then Some (''Links found but anchor text '' @ [CHR 0x22] @ a @ [CHR 0x22] @
                     '' not matched'')
          else None)"

definition exact_failure :: "options \<Rightarrow> link list \<Rightarrow> string option" where
  "exact_failure opts matchingLinks =
     (case exactUrl opts of
        None \<Rightarrow> None
      | Some u \<Rightarrow>
          if u \<noteq> [] \<and> \<not> list_ex (\<lambda>l. href l = u) matchingLinks
          then Some (''Links found but exact URL '' @ [CHR 0x22] @ u @ [CHR 0x22] @
                     '' not matched'')
          else None)"

text \<open>
  \<open>bestMatch\<close> as the code assigns it: \<open>matchingLinks[0]\<close>, replaced by
  \<open>dofollowLinks[0]\<close> when \<open>options.dofollow\<close> is set; \<open>None\<close> when that option is
  set and no link is dofollow.
\<close>

definition choose_best :: "options \<Rightarrow> link list \<Rightarrow> link option" where
  "choose_best opts matchingLinks =
     (case matchingLinks of
        [] \<Rightarrow> None
      | first # _ \<Rightarrow>
          if dofollow opts
          then (case filter isDoFollow matchingLinks of [] \<Rightarrow> None | d # _ \<Rightarrow> Some d)
          else Some first)"

text \<open>The body of the \<open>try\<close> block after the links to the target have been filtered.\<close>

definition check_links :: "string \<Rightarrow> string \<Rightarrow> options \<Rightarrow> link list \<Rightarrow> result" where
  "check_links page target opts matchingLinks =
     (if matchingLinks = []
      then failure page target None ''No links found to target domain''
      else case choose_best opts matchingLinks of
             None \<Rightarrow>
               failure page target (Some matchingLinks) ''Links found but all are nofollow''
           | Some best \<Rightarrow>
               (case anchor_failure opts matchingLinks of
                  Some msg \<Rightarrow> failure page target (Some matchingLinks) msg
                | None \<Rightarrow>
                    (case exact_failure opts matchingLinks of
                       Some msg \<Rightarrow> failure page target (Some matchingLinks) msg
                     | None \<Rightarrow>
                         \<lparr>verified = True, pageUrl = page, targetDomain = target,
                          linksFound = Some matchingLinks, bestMatch = Some best,
                          error = None,
                          message = ''Found '' @ show_nat (length matchingLinks) @
                                    '' link(s) to '' @ target\<rparr>)))"

definition verifyBacklink ::
  "nat \<Rightarrow> (string \<Rightarrow> net_event) \<Rightarrow> url_parser \<Rightarrow> string \<Rightarrow> string \<Rightarrow> options \<Rightarrow> result outcome option" where
  "verifyBacklink fuel net URL page target opts =
     (case fetchPage fuel net URL page of
        None \<Rightarrow> None
      | Some (Uncaught e) \<Rightarrow> Some (Uncaught e)
      | Some Pending \<Rightarrow> Some Pending
      | Some (Rejected e) \<Rightarrow>
          Some (Fulfilled \<lparr>verified = False, pageUrl = page, targetDomain = target,
                           linksFound = None, bestMatch = None, error = Some e,
                           message = ''Failed to fetch page: '' @ e\<rparr>)
      | Some (Fulfilled html) \<Rightarrow>
          Some (Fulfilled (check_links page target opts
                             (filter (points_to URL page target) (extractLinks html)))))"

text \<open>One entry of the list given to \<open>batchVerify\<close>; an absent \<open>options\<close> is \<open>{}\<close>.\<close>

record check =
  check_pageUrl :: string
  check_targetDomain :: string
  check_options :: "options option"

definition no_options :: options where
  "no_options = \<lparr>dofollow = False, anchor_opt = None, exactUrl = None\<rparr>"

text \<open>\<open>verifyBacklink(check.pageUrl, check.targetDomain, check.options)\<close>\<close>

definition verify_check ::
  "nat \<Rightarrow> (string \<Rightarrow> net_event) \<Rightarrow> url_parser \<Rightarrow> check \<Rightarrow> result outcome option" where
  "verify_check fuel net URL c =
     verifyBacklink fuel net URL (check_pageUrl c) (check_targetDomain c)
       (case check_options c of None \<Rightarrow> no_options | Some opts \<Rightarrow> opts)"

text \<open>
  The \<open>for\<close> loop of \<open>batchVerify\<close> with its \<open>results\<close> array, one check after the
  other; the pause of 500 ms between two checks is time only and is not modelled. The
  loop awaits each \<open>verifyBacklink\<close>: it goes on to the next check only when that
  promise is fulfilled.
\<close>

fun batch_loop ::
  "nat \<Rightarrow> (string \<Rightarrow> net_event) \<Rightarrow> url_parser \<Rightarrow> result list \<Rightarrow> check list \<Rightarrow> result list outcome option" where
  "batch_loop fuel net URL results [] = Some (Fulfilled results)"
| "batch_loop fuel net URL results (c # cs) =
     (case verify_check fuel net URL c of
        None \<Rightarrow> None
      | Some (Uncaught e) \<Rightarrow> Some (Uncaught e)
      | Some Pending \<Rightarrow> Some Pending
      | Some (Rejected e) \<Rightarrow> Some (Rejected e)
      | Some (Fulfilled r) \<Rightarrow> batch_loop fuel net URL (results @ [r]) cs)"

definition batchVerify ::
  "nat \<Rightarrow> (string \<Rightarrow> net_event) \<Rightarrow> url_parser \<Rightarrow> check list \<Rightarrow> result list outcome option" where
  "batchVerify fuel net URL checks = batch_loop fuel net URL [] checks"

section \<open>Bids (src/abn.js, watch.js)\<close>

text \<open>The JavaScript values a field of a bid object may hold, as far as \<open>createBid\<close> tells them apart.\<close>

datatype jsval = JUndefined | JNull | JBool bool | JNum int | JNaN | JStr string

fun truthy :: "jsval \<Rightarrow> bool" where
  "truthy JUndefined = False"
| "truthy JNull = False"
| "truthy (JBool b) = b"
| "truthy (JNum n) = (n \<noteq> 0)"
| "truthy JNaN = False"
| "truthy (JStr s) = (s \<noteq> [])"

record bid =
  bid_type :: jsval
  bid_industry :: jsval
  sats :: jsval

text \<open>
  \<open>ABN.createBid\<close>: three checks that throw, then \<open>postBid(bid)\<close>. The publishing
  function is a parameter acting on a world \<open>'w\<close>; a rejected bid leaves the world as it is.
\<close>

definition createBid :: "(bid \<Rightarrow> 'w \<Rightarrow> 'r \<times> 'w) \<Rightarrow> bid \<Rightarrow> 'w \<Rightarrow> (string + 'r) \<times> 'w" where
  "createBid postBid b w =
     (if \<not> truthy (bid_type b) \<or> bid_type b \<notin> set [JStr ''seeking'', JStr ''offering'']
      then (Inl (''Bid must have type: '' @ [CHR 0x22] @ ''seeking'' @ [CHR 0x22] @ '' or '' @
                 [CHR 0x22] @ ''offering'' @ [CHR 0x22]), w)
      else if \<not> truthy (bid_industry b)
      then (Inl ''Bid must have an industry'', w)
      else if \<not> truthy (sats b) \<and> bid_type b = JStr ''seeking''
      then (Inl ''Seeking bids must have sats amount'', w)
      else (case postBid b w of (r, w') \<Rightarrow> (Inr r, w')))"

text \<open>A signed event as the relays return it.\<close>

record event =
  event_id :: string
  pubkey :: string
  created_at :: int
  tags :: "string list list"
  content :: string

text \<open>\<open>e.tags.find(t => t[0] === 'expiry')\<close>; an empty tag has no \<open>t[0]\<close>.\<close>

definition find_expiry :: "string list list \<Rightarrow> string list option" where
  "find_expiry ts = find (\<lambda>t. case t of [] \<Rightarrow> False | k # _ \<Rightarrow> k = ''expiry'') ts"

text \<open>
  The numbers \<open>parseInt\<close> returns, NaN apart. An integer whose magnitude reaches
  \<open>2^1024 - 2^970\<close>, halfway between the largest double and \<open>2^1024\<close>, has no
  finite double and becomes an infinity. A smaller integer is kept as it is: rounding to
  the nearest double keeps the order and leaves the integers below \<open>2^53\<close> in place,
  so it does not change a comparison with a timestamp below \<open>2^53\<close>.
\<close>

datatype number = Finite int | PlusInfinity | MinusInfinity

definition to_number :: "int \<Rightarrow> number" where
  "to_number v =
     (if 2 ^ 1024 - 2 ^ 970 \<le> v then PlusInfinity
      else if v \<le> - (2 ^ 1024 - 2 ^ 970) then MinusInfinity
      else Finite v)"

text \<open>\<open>x > now\<close> for a number \<open>x\<close> and an integer \<open>now\<close>.\<close>

fun gt_number :: "number \<Rightarrow> int \<Rightarrow> bool" where
  "gt_number (Finite x) now = (x > now)"
| "gt_number PlusInfinity now = True"
| "gt_number MinusInfinity now = False"

text \<open>
  \<open>parseInt\<close> without a radix: leading white space, an optional sign, \<open>0x\<close> for
  base 16, then the longest run of digits; \<open>None\<close> is NaN.
\<close>

definition digit_table :: "(char \<times> nat) list" where
  "digit_table =
     [(CHR ''0'', 0), (CHR ''1'', 1), (CHR ''2'', 2), (CHR ''3'', 3), (CHR ''4'', 4),
      (CHR ''5'', 5), (CHR ''6'', 6), (CHR ''7'', 7), (CHR ''8'', 8), (CHR ''9'', 9),
      (CHR ''a'', 10), (CHR ''b'', 11), (CHR ''c'', 12), (CHR ''d'', 13), (CHR ''e'', 14),
      (CHR ''f'', 15),
      (CHR ''A'', 10), (CHR ''B'', 11), (CHR ''C'', 12), (CHR ''D'', 13), (CHR ''E'', 14),
      (CHR ''F'', 15)]"

definition digit_of :: "nat \<Rightarrow> char \<Rightarrow> nat option" where
  "digit_of radix c =
     (case map_of digit_table c of
        Some d \<Rightarrow> if d < radix then Some d else None
      | None \<Rightarrow> None)"

definition digits_value :: "nat \<Rightarrow> string \<Rightarrow> int" where
  "digits_value radix ds =
     foldl (\<lambda>acc c. acc * int radix + (case digit_of radix c of Some d \<Rightarrow> int d | None \<Rightarrow> 0))
       0 ds"

definition parse_unsigned :: "string \<Rightarrow> int option" where
  "parse_unsigned s =
     (let radix = (if startsWith s ''0x'' \<or> startsWith s ''0X'' then 16 else 10);
          t = (if radix = 16 then drop 2 s else s);
          ds = takeWhile (\<lambda>c. digit_of radix c \<noteq> None) t
      in if ds = [] then None else Some (digits_value radix ds))"

definition parseInt :: "string option \<Rightarrow> number option" where
  "parseInt v =
     (case v of
        None \<Rightarrow> None
      | Some s \<Rightarrow>
          (case dropWhile (\<lambda>c. c \<in> set whitespace) s of
             [] \<Rightarrow> None
           | c # cs \<Rightarrow>
               map_option to_number
                 (if c = CHR ''-'' then map_option uminus (parse_unsigned cs)
                  else if c = CHR ''+'' then parse_unsigned cs
                  else parse_unsigned (c # cs))))"

text \<open>\<open>expiryTag[1]\<close>: \<open>undefined\<close> (here \<open>None\<close>) when the tag has no second entry.\<close>

definition tag_value :: "string list \<Rightarrow> string option" where
  "tag_value t = (case t of _ # v # _ \<Rightarrow> Some v | _ \<Rightarrow> None)"

text \<open>The callback of \<open>events.filter\<close> in \<open>queryBids\<close>; a comparison with NaN is false.\<close>

definition bid_active :: "int \<Rightarrow> event \<Rightarrow> bool" where
  "bid_active now e =
     (case find_expiry (tags e) of
        None \<Rightarrow> True
      | Some expiryTag \<Rightarrow>
          (case parseInt (tag_value expiryTag) of
             None \<Rightarrow> False
           | Some x \<Rightarrow> gt_number x now))"

definition activeBids :: "int \<Rightarrow> event list \<Rightarrow> event list" where
  "activeBids now events = filter (bid_active now) events"

text \<open>
  The body of the printing loop over \<open>activeBids\<close>, as far as it can throw: the
  exception it raises on an event, if any. \<open>JSON.parse(event.content)\<close> throws a
  \<open>SyntaxError\<close> on a content that is not JSON, \<open>bid.type\<close> a \<open>TypeError\<close> when the
  content is \<open>null\<close>, and \<open>nip19.npubEncode(event.pubkey)\<close> an \<open>Error\<close> on a pubkey
  that is not hexadecimal. Both functions belong to the platform, so the body is a
  parameter.
\<close>

type_synonym printer = "event \<Rightarrow> js_error option"

text \<open>The loop is inside no \<open>try\<close>: the first exception ends it, and \<open>queryBids\<close> with it.\<close>

fun print_bids :: "printer \<Rightarrow> event list \<Rightarrow> js_error + unit" where
  "print_bids print_bid [] = Inr ()"
| "print_bids print_bid (e # es) =
     (case print_bid e of
        Some err \<Rightarrow> Inl err
      | None \<Rightarrow> print_bids print_bid es)"

text \<open>
  \<open>queryBids\<close>: the relays' log is read with \<open>pool.querySync\<close> (a parameter: which
  events of the log answer the filter built from \<open>filters\<close>), filtered by expiry, printed
  and returned. The log is threaded through to make reads and writes explicit;
  \<open>queryBids\<close> has no operation that writes to it. \<open>Inl\<close> is the exception with which
  the promise of \<open>queryBids\<close> is rejected: no list is returned then.
\<close>

definition queryBids ::
  "printer \<Rightarrow> (string option \<Rightarrow> event list \<Rightarrow> event list) \<Rightarrow> string option \<Rightarrow> int \<Rightarrow>
   event list \<Rightarrow> (js_error + event list) \<times> event list" where
  "queryBids print_bid querySync industry_filter now log =
     (let events = querySync industry_filter log;
          active = activeBids now events
      in (case print_bids print_bid active of
            Inl e \<Rightarrow> Inl e
          | Inr _ \<Rightarrow> Inr active, log))"

section \<open>Negotiation state machine\<close>

text \<open>
  Modelled from the spec: the Deal aggregate and its transition table. The repository
  keeps negotiation state in \<open>lib/state.js\<close>, which is not among the sources; only the
  \<open>LocalState\<close> type declaration is. The definitions below follow sections 3 and 4.4 of
  the specification.
\<close>

datatype status =
  INITIATED | PROPOSED | COUNTERED | ACCEPTED | PAID | PLACED | VERIFYING | COMPLETED | FAILED

datatype variant =
  Inquiry string string
| Counter int string
| Accept string
| PaidMsg string string
| PlacedMsg string string
| VerifiedMsg bool string

record negotiation_message =
  variant :: variant
  timestamp :: int

record deal =
  initiator :: string
  counterparty :: string
  status :: status
  messageLog :: "negotiation_message list"
  failure_reason :: "string option"

text \<open>
  Modelled from the spec: the rows of the transition table whose trigger is a message,
  for a Deal that exists (the row from "(none)" creates the Deal), and the re-verification
  row \<open>FAILED\<close> to \<open>VERIFYING\<close> on a new \<open>placed\<close> message. \<open>None\<close>: the message is not a
  valid transition from that status.
\<close>

fun transition :: "status \<Rightarrow> variant \<Rightarrow> status option" where
  "transition INITIATED (Counter _ _) = Some PROPOSED"
| "transition PROPOSED (Counter _ _) = Some COUNTERED"
| "transition COUNTERED (Counter _ _) = Some COUNTERED"
| "transition PROPOSED (Accept _) = Some ACCEPTED"
| "transition COUNTERED (Accept _) = Some ACCEPTED"
| "transition PAID (PaidMsg _ _) = Some PLACED"
| "transition PLACED (PlacedMsg _ _) = Some VERIFYING"
| "transition FAILED (PlacedMsg _ _) = Some VERIFYING"
| "transition _ _ = None"

text \<open>
  Modelled from the spec: every message sent or received for a Deal is appended to its
  \<open>messageLog\<close>; the status advances only when the message is a valid transition.
\<close>

definition apply_message :: "deal \<Rightarrow> negotiation_message \<Rightarrow> deal" where
  "apply_message d m =
     d\<lparr>messageLog := messageLog d @ [m],
       status := (case transition (status d) (variant m) of
                    Some s \<Rightarrow> s
                  | None \<Rightarrow> status d)\<rparr>"

text \<open>Modelled from the spec: the first message of a negotiation is an inquiry and creates the Deal.\<close>

definition open_deal :: "string \<Rightarrow> string \<Rightarrow> negotiation_message \<Rightarrow> deal" where
  "open_deal a b m =
     \<lparr>initiator = a, counterparty = b, status = INITIATED, messageLog = [m],
      failure_reason = None\<rparr>"

section \<open>What a match of the link expression looks like\<close>

text \<open>
  The words an expression can match, with the groups it captures: the declarative reading
  of the expressions, against which the matcher above is proved sound.
\<close>

fun lang :: "rx \<Rightarrow> string \<Rightarrow> string list \<Rightarrow> bool" where
  "lang Eps w g = (w = [] \<and> g = [])"
| "lang (Atom c) w g = (\<exists>x. w = [x] \<and> in_cls c x \<and> g = [])"
| "lang (Star c) w g = (list_all (in_cls c) w \<and> g = [])"
| "lang (Plus c) w g = (w \<noteq> [] \<and> list_all (in_cls c) w \<and> g = [])"
| "lang (Seq a b) w g =
     (\<exists>w1 w2 g1 g2. w = w1 @ w2 \<and> g = g1 @ g2 \<and> lang a w1 g1 \<and> lang b w2 g2)"
| "lang (Group r) w g = (\<exists>g'. g = w # g' \<and> lang r w g')"

text \<open>
  The text \<open>w\<close> of an anchor element as \<open>linkRegex\<close> accepts it: \<open><a\<close>, white space,
  an opening tag that carries \<open>href\<close>, \<open>=\<close> and a quoted non-empty value \<open>v\<close> and
  has no \<open>>\<close> outside that value, then \<open>>\<close>, the element body \<open>itext\<close> and \<open></a>\<close>.
\<close>

definition anchor_element :: "string \<Rightarrow> string \<Rightarrow> string \<Rightarrow> bool" where
  "anchor_element w v itext =
     (\<exists>a1 ws before h r e f sp1 sp2 q1 q2 after a2.
        w = [CHR ''<'', a1] @ ws @ before @ [h, r, e, f] @ sp1 @ ''='' @ sp2 @ [q1] @ v @ [q2] @
            after @ ''>'' @ itext @ [CHR ''<'', CHR ''/'', a2, CHR ''>''] \<and>
        map toUpperChar [a1, h, r, e, f, a2] = ''AHREFA'' \<and>
        ws \<noteq> [] \<and> list_all (\<lambda>c. c \<in> set whitespace) (ws @ sp1 @ sp2) \<and>
        CHR ''>'' \<notin> set before \<and> CHR ''>'' \<notin> set after \<and>
        q1 \<in> set quotes \<and> q2 \<in> set quotes \<and>
        v \<noteq> [] \<and> list_all (\<lambda>c. c \<notin> set quotes) v)"

text \<open>
  Whether the text of an opening tag, read backwards from its end, reaches a quote that
  directly follows \<open>href\<close>, \<open>=\<close> and optional white space before it reaches any other
  quote: the last quote of the tag then opens a value that the tag does not close. So it
  is in \<open><a title="see href="\<close>, and in no tag whose last quote closes a value that does
  not end in \<open>href=\<close>.
\<close>

definition ends_with_href_eq :: "string \<Rightarrow> bool" where
  "ends_with_href_eq reversed =
     (case dropWhile (\<lambda>c. c \<in> set whitespace) reversed of
        [] \<Rightarrow> False
      | c # cs \<Rightarrow>
          c = CHR ''='' \<and>
          (case dropWhile (\<lambda>c. c \<in> set whitespace) cs of
             f # e # r # h # _ \<Rightarrow> map toUpperChar [h, r, e, f] = ''HREF''
           | _ \<Rightarrow> False))"

definition dangling_href_quote :: "string \<Rightarrow> bool" where
  "dangling_href_quote tag =
     (case dropWhile (\<lambda>c. c \<notin> set quotes) (rev tag) of
        [] \<Rightarrow> False
      | q # before_reversed \<Rightarrow> ends_with_href_eq before_reversed)"

text \<open>Whether \<open>s\<close>, the text after a \<open><\<close>, starts with \<open>/a>\<close>: the \<open><\<close> opens \<open></a>\<close>.\<close>

definition closes_anchor :: "string \<Rightarrow> bool" where
  "closes_anchor s =
     (case s of
        c1 # a2 # c3 # _ \<Rightarrow> c1 = CHR ''/'' \<and> toUpperChar a2 = CHR ''A'' \<and> c3 = CHR ''>''
      | _ \<Rightarrow> False)"


text \<open>How every anchor element begins: \<open><a\<close> and a white space character.\<close>

definition starts_anchor :: "string \<Rightarrow> bool" where
  "starts_anchor s =
     (case s of
        c # a # w # _ \<Rightarrow> c = CHR ''<'' \<and> toUpperChar a = CHR ''A'' \<and> w \<in> set whitespace
      | _ \<Rightarrow> False)"

section \<open>Example inputs\<close>

text \<open>A page with two plain links to the target.\<close>

definition two_links_page :: string where
  "two_links_page =
     ''<a href='' @ [CHR 0x22] @ ''https://target.com/a'' @ [CHR 0x22] @ ''>foo</a> '' @
     ''<a href='' @ [CHR 0x22] @ ''https://target.com/b'' @ [CHR 0x22] @ ''>bar</a>''"

text \<open>A page whose only link to the target wraps its text in \<open><b>\<close>.\<close>

definition nested_anchor_page :: string where
  "nested_anchor_page =
     ''<p>Partners:</p><a href='' @ [CHR 0x22] @ ''https://target.com/'' @ [CHR 0x22] @
     ''><b>Target</b></a>''"

text \<open>
  A page whose only link to the target wraps its text in \<open><b>\<close> and has a
  \<open>title\<close> that ends in \<open>href=\<close>; the text has an apostrophe.
\<close>

definition quoted_href_page :: string where
  "quoted_href_page =
     ''<a href='' @ [CHR 0x22] @ ''https://target.com/'' @ [CHR 0x22] @
     '' title='' @ [CHR 0x22] @ ''see href='' @ [CHR 0x22] @
     ''><b>target.com'' @ [CHR 0x27] @ ''s site</b></a>''"

text \<open>
  A small network: three pages that answer 200, one that answers 404, one that redirects
  with the header \<open>Location: //[\<close>, one whose connection closes in the middle of the
  body, and no answer from any other address.
\<close>

definition sample_net :: "string \<Rightarrow> net_event" where
  "sample_net u =
     (if u = ''https://partner.example/links''
      then Response \<lparr>statusCode = 200, location = None, body = two_links_page,
                      complete = True\<rparr>
      else if u = ''https://partner.example/nested''
      then Response \<lparr>statusCode = 200, location = None, body = nested_anchor_page,
                      complete = True\<rparr>
      else if u = ''https://partner.example/quoted''
      then Response \<lparr>statusCode = 200, location = None, body = quoted_href_page,
                      complete = True\<rparr>
      else if u = ''https://partner.example/gone''
      then Response \<lparr>statusCode = 404, location = None, body = [], complete = True\<rparr>
      else if u = ''https://partner.example/moved''
      then Response \<lparr>statusCode = 302, location = Some ''//['', body = [],
                      complete = True\<rparr>
      else if u = ''https://partner.example/cut''
      then Response \<lparr>statusCode = 200, location = None, body = ''<p>Partners:</p><a hr'',
                      complete = False\<rparr>
      else RequestError ''getaddrinfo ENOTFOUND'')"

text \<open>
  The values of \<open>new URL(input, base)\<close> at the inputs of the examples. The constructor
  throws on \<open>//[\<close> (an unclosed IPv6 host) for every base; the relative input is resolved
  against a page of \<open>partner.example\<close>; inputs that the examples do not use are not listed.
\<close>

definition sample_URL :: url_parser where
  "sample_URL input base =
     map_of
       [(''https://target.com/'',
           \<lparr>url_href = ''https://target.com/'', hostname = ''target.com''\<rparr>),
        (''https://target.com/a'',
           \<lparr>url_href = ''https://target.com/a'', hostname = ''target.com''\<rparr>),
        (''https://target.com/b'',
           \<lparr>url_href = ''https://target.com/b'', hostname = ''target.com''\<rparr>),
        (''><b>target.com'',
           \<lparr>url_href = ''https://partner.example/%3E%3Cb%3Etarget.com'',
            hostname = ''partner.example''\<rparr>)]
       input"

text \<open>A publisher that records the bids it is given.\<close>

definition publish_log :: "bid \<Rightarrow> bid list \<Rightarrow> unit \<times> bid list" where
  "publish_log b published = ((), published @ [b])"

text \<open>
  Bid events with the tags that \<open>postBid\<close> writes, signed by one key: one that expires
  at 200, one without an \<open>expiry\<close> tag, one whose \<open>expiry\<close> tag holds 400 digits
  \<open>9\<close>, and one that expires at 200 and whose content is no JSON.
\<close>

definition sample_pubkey :: string where
  "sample_pubkey = ''3bf0c63fcb93463407af97a5e5ee64fa883d107ef9e558472c4eb9aaaefa459d''"

definition expiring_bid :: event where
  "expiring_bid =
     \<lparr>event_id = ''e1'', pubkey = sample_pubkey, created_at = 50,
      tags = [[''d'', ''bid-1''], [''t'', ''abn-bid''], [''l'', ''link-bid'', ''abn''],
              [''expiry'', ''200'']],
      content = ''{}''\<rparr>"

definition open_ended_bid :: event where
  "open_ended_bid =
     \<lparr>event_id = ''e2'', pubkey = sample_pubkey, created_at = 1,
      tags = [[''d'', ''bid-2''], [''t'', ''abn-bid''], [''l'', ''link-bid'', ''abn'']],
      content = ''{}''\<rparr>"

definition overflowing_expiry_event :: event where
  "overflowing_expiry_event =
     \<lparr>event_id = ''e3'', pubkey = sample_pubkey, created_at = 1,
      tags = [[''d'', ''bid-3''], [''t'', ''abn-bid''], [''l'', ''link-bid'', ''abn''],
              [''expiry'', replicate 400 CHR ''9'']],
      content = ''{}''\<rparr>"

definition garbled_bid :: event where
  "garbled_bid =
     \<lparr>event_id = ''e4'', pubkey = sample_pubkey, created_at = 60,
      tags = [[''d'', ''bid-4''], [''t'', ''abn-bid''], [''l'', ''link-bid'', ''abn''],
              [''expiry'', ''200'']],
      content = ''not json''\<rparr>"

text \<open>A relay pool that answers every filter with its whole log.\<close>

definition whole_log :: "string option \<Rightarrow> event list \<Rightarrow> event list" where
  "whole_log f l = l"

text \<open>
  The body of the printing loop at the events above: it completes on the content
  \<open>{}\<close> with a pubkey of 64 hexadecimal digits, and \<open>JSON.parse\<close> throws on
  \<open>not json\<close>. Events that the examples do not use are not told apart from the latter.
\<close>

definition sample_printer :: printer where
  "sample_printer e =
     (if content e = ''{}'' \<and> pubkey e = sample_pubkey then None
      else Some (SyntaxError ''Unexpected token in JSON''))"

section \<open>Properties of the matching engine\<close>

lemma keys_not_inherited:
  "map_of RELATED_INDUSTRIES a = Some l \<Longrightarrow> a \<notin> set Object_prototype_names"
  by (auto simp: RELATED_INDUSTRIES_def Object_prototype_names_def split: if_splits)

lemma lists_not_inherited:
  "map_of RELATED_INDUSTRIES a = Some l \<Longrightarrow> b \<in> set l \<Longrightarrow> b \<notin> set Object_prototype_names"
  by (auto simp: RELATED_INDUSTRIES_def Object_prototype_names_def split: if_splits)

lemma related_spec_sym: "related_spec a b = related_spec b a"
  by (auto simp: related_spec_def)

lemma isRelatedIndustry_plain:
  assumes "a \<notin> set Object_prototype_names" "b \<notin> set Object_prototype_names"
  shows "isRelatedIndustry a b = Inr (related_spec a b)"
  using assms
  by (auto simp: isRelatedIndustry_def opt_includes_def get_related_def related_spec_def
      split: option.splits bool.splits sum.splits property.splits)

lemma isRelatedIndustry_throws:
  assumes "a \<in> set Object_prototype_names \<or> b \<in> set Object_prototype_names"
  shows "\<exists>e. isRelatedIndustry a b = Inl e"
  using assms keys_not_inherited lists_not_inherited
  by (fastforce simp: isRelatedIndustry_def opt_includes_def get_related_def
      split: option.splits bool.splits sum.splits property.splits)

lemma score_site_plain:
  assumes "industry y = industry s \<or>
    (industry y \<notin> set Object_prototype_names \<and> industry s \<notin> set Object_prototype_names)"
  shows "score_site y s = Inr (score_spec y s)"
  using assms
  by (auto simp: score_site_def score_spec_def Let_def isRelatedIndustry_plain)

lemma score_site_throws:
  assumes "industry y \<noteq> industry s"
    "industry y \<in> set Object_prototype_names \<or> industry s \<in> set Object_prototype_names"
  shows "\<exists>e. score_site y s = Inl e"
  using isRelatedIndustry_throws[OF assms(2)] assms(1)
  by (auto simp: score_site_def Let_def)

lemma insert_cmp_insort:
  "insert_cmp (\<lambda>a b. f b - f a) x ys = insort_key (\<lambda>x. - f x) x ys"
  by (induction ys) auto

lemma sort_cmp_sort_key:
  "sort_cmp (\<lambda>a b. f b - f a) xs = sort_key (\<lambda>x. - (f x :: int)) xs"
  by (induction xs) (auto simp: sort_cmp_def sort_key_def insert_cmp_insort)

lemma map_scores_plain:
  assumes "\<forall>s \<in> set ss. industry y = industry s \<or>
    (industry y \<notin> set Object_prototype_names \<and> industry s \<notin> set Object_prototype_names)"
  shows "map_scores y ss = Inr (map (\<lambda>s. annotate s (score_spec y s)) ss)"
  using assms by (induction ss) (auto simp: score_site_plain)

lemma map_scores_throws:
  assumes "s \<in> set ss" "score_site y s = Inl e"
  shows "\<exists>e'. map_scores y ss = Inl e'"
  using assms by (induction ss) (auto split: sum.splits)

lemma matchScore_annotate: "matchScore (annotate s n) = n"
  by (simp add: annotate_def site.extend_def scored.fields_def)

lemma truncate_annotate: "site.truncate (annotate s n) = s"
  by (simp add: annotate_def site.extend_def scored.fields_def site.truncate_def)

text \<open>
  Claim C1: the score of every requester and candidate is the sum of the state, city,
  industry and authority terms. The code computes that sum unless the two industries
  differ and one of them is a name that \<open>Object.prototype\<close> defines: there
  \<open>RELATED_INDUSTRIES[a]?.includes(b)\<close> raises a \<open>TypeError\<close> and no score is produced.
  At requester industry \<open>plumbing\<close> and candidate industry \<open>constructor\<close> the sum of
  the claim is 65 and the code throws.
\<close>

theorem C1_score_throws_on_inherited_name:
  "score_site
     \<lparr>url = ''https://a.example'', state = ''CA'', city = ''LA'',
      industry = ''plumbing'', da = Some 0\<rparr>
     \<lparr>url = ''https://b.example'', state = ''CA'', city = ''SD'',
      industry = ''constructor'', da = Some 35\<rparr>
   = Inl (TypeError ''includes is not a function'')
   \<and> score_spec
     \<lparr>url = ''https://a.example'', state = ''CA'', city = ''LA'',
      industry = ''plumbing'', da = Some 0\<rparr>
     \<lparr>url = ''https://b.example'', state = ''CA'', city = ''SD'',
      industry = ''constructor'', da = Some 35\<rparr> = 65"
  by (simp add: score_site_def score_spec_def related_spec_def da_ge_def isRelatedIndustry_def
      opt_includes_def get_related_def RELATED_INDUSTRIES_def Object_prototype_names_def)

text \<open>
  Claim C3: for every requester and every list of candidates, \<open>findMatches\<close> returns the
  candidates with a different url and a score above 30, annotated and sorted. The call
  does not return when one candidate makes the score computation throw (the defect of
  claim C1): here the second candidate has industry \<open>constructor\<close>, and the first
  candidate, which scores 90, is lost with it.
\<close>

theorem C3_findMatches_throws_on_inherited_name:
  "findMatches
     \<lparr>url = ''https://a.example'', state = ''CA'', city = ''LA'',
      industry = ''plumbing'', da = Some 0\<rparr>
     [\<lparr>url = ''https://b.example'', state = ''CA'', city = ''SD'',
       industry = ''plumbing'', da = Some 35\<rparr>,
      \<lparr>url = ''https://c.example'', state = ''CA'', city = ''SD'',
       industry = ''constructor'', da = Some 35\<rparr>]
   = Inl (TypeError ''includes is not a function'')"
  by (simp add: findMatches_def score_site_def da_ge_def isRelatedIndustry_def
      opt_includes_def get_related_def RELATED_INDUSTRIES_def Object_prototype_names_def)

text \<open>
  The scoring rule of claim C1 on every pair that does not meet the defect: when the two
  industries are equal, or neither is a name defined by \<open>Object.prototype\<close>, the code
  returns the sum of the specification; the relatedness relation is symmetric.
\<close>

theorem score_site_is_sum:
  assumes "industry y = industry s \<or>
    (industry y \<notin> set Object_prototype_names \<and> industry s \<notin> set Object_prototype_names)"
  shows "score_site y s = Inr (score_spec y s) \<and>
    related_spec (industry y) (industry s) = related_spec (industry s) (industry y)"
  using score_site_plain[OF assms] related_spec_sym by blast

theorem score_site_is_sum_witness:
  "score_site
     \<lparr>url = ''https://a.example'', state = ''CA'', city = ''LA'',
      industry = ''plumbing'', da = Some 0\<rparr>
     \<lparr>url = ''https://b.example'', state = ''CA'', city = ''SD'',
      industry = ''plumbing'', da = Some 35\<rparr> = Inr 90"
proof -
  let ?r = "\<lparr>url = ''https://a.example'', state = ''CA'', city = ''LA'',
      industry = ''plumbing'', da = Some (0::int)\<rparr>"
  let ?c = "\<lparr>url = ''https://b.example'', state = ''CA'', city = ''SD'',
      industry = ''plumbing'', da = Some (35::int)\<rparr>"
  have h: "industry ?r = industry ?c \<or>
    (industry ?r \<notin> set Object_prototype_names \<and> industry ?c \<notin> set Object_prototype_names)"
    by simp
  have "score_spec ?r ?c = 90"
    by (simp add: score_spec_def da_ge_def)
  with score_site_is_sum[OF h] show ?thesis by simp
qed

text \<open>
  The ranking of claim C3 on every input that does not meet the defect: the result holds
  exactly the candidates with another url and a score above 30, each with its score, in
  descending order of score, and among equal scores in the order of the input
  (\<open>rank_spec\<close> is that list before sorting).
\<close>

theorem findMatches_ranks:
  assumes "\<forall>s \<in> set allSites. url s \<noteq> url y \<longrightarrow> (industry y = industry s \<or>
    (industry y \<notin> set Object_prototype_names \<and> industry s \<notin> set Object_prototype_names))"
  shows "\<exists>r. findMatches y allSites = Inr r \<and>
     set r = set (rank_spec y allSites) \<and>
     sorted_wrt (\<lambda>a b. matchScore a \<ge> matchScore b) r \<and>
     (\<forall>k. filter (\<lambda>m. matchScore m = k) r = filter (\<lambda>m. matchScore m = k) (rank_spec y allSites))"
proof -
  let ?c = "filter (\<lambda>s. url s \<noteq> url y) allSites"
  let ?m = "map (\<lambda>s. annotate s (score_spec y s)) ?c"
  let ?f = "filter (\<lambda>m. 30 < matchScore m) ?m"
  let ?r = "sort_key (\<lambda>m. - matchScore m) ?f"
  have ms: "map_scores y ?c = Inr ?m"
    using assms by (intro map_scores_plain) auto
  have fm: "findMatches y allSites = Inr ?r"
    by (simp add: findMatches_def ms sort_cmp_sort_key)
  have feq: "?f = rank_spec y allSites"
    by (simp add: rank_spec_def filter_map o_def matchScore_annotate conj_commute)
  have s: "sorted (map (\<lambda>m. - matchScore m) ?r)"
    by (rule sorted_sort_key)
  have s2: "sorted_wrt (\<lambda>a b. matchScore a \<ge> matchScore b) ?r"
    using s by (simp add: sorted_map sorted_wrt_iff_nth_less)
  have st: "\<forall>k. filter (\<lambda>m. matchScore m = k) ?r = filter (\<lambda>m. matchScore m = k) ?f"
  proof
    fix k
    have "filter (\<lambda>m. - matchScore m = - k) ?r = filter (\<lambda>m. - matchScore m = - k) ?f"
      by (rule sort_key_stable)
    then show "filter (\<lambda>m. matchScore m = k) ?r = filter (\<lambda>m. matchScore m = k) ?f"
      by simp
  qed
  have se: "set ?r = set ?f" by simp
  show ?thesis
    unfolding fm using s2 st se unfolding feq by blast
qed

theorem findMatches_ranks_witness:
  "findMatches
     \<lparr>url = ''https://a.example'', state = ''CA'', city = ''LA'',
      industry = ''plumbing'', da = Some 0\<rparr>
     [\<lparr>url = ''https://low.example'', state = ''NV'', city = ''LA'',
       industry = ''dental'', da = None\<rparr>,
      \<lparr>url = ''https://b.example'', state = ''CA'', city = ''SD'',
       industry = ''hvac'', da = Some 20\<rparr>,
      \<lparr>url = ''https://a.example'', state = ''CA'', city = ''LA'',
       industry = ''plumbing'', da = Some 0\<rparr>,
      \<lparr>url = ''https://c.example'', state = ''CA'', city = ''SD'',
       industry = ''plumbing'', da = Some 35\<rparr>,
      \<lparr>url = ''https://d.example'', state = ''CA'', city = ''SF'',
       industry = ''roofing'', da = Some 10\<rparr>]
   = Inr
     [\<lparr>url = ''https://c.example'', state = ''CA'', city = ''SD'',
       industry = ''plumbing'', da = Some 35, matchScore = 90\<rparr>,
      \<lparr>url = ''https://b.example'', state = ''CA'', city = ''SD'',
       industry = ''hvac'', da = Some 20, matchScore = 70\<rparr>,
      \<lparr>url = ''https://d.example'', state = ''CA'', city = ''SF'',
       industry = ''roofing'', da = Some 10, matchScore = 70\<rparr>]"
proof -
  let ?y = "\<lparr>url = ''https://a.example'', state = ''CA'', city = ''LA'',
      industry = ''plumbing'', da = Some (0::int)\<rparr>"
  let ?l = "[\<lparr>url = ''https://low.example'', state = ''NV'', city = ''LA'',
       industry = ''dental'', da = None\<rparr>,
      \<lparr>url = ''https://b.example'', state = ''CA'', city = ''SD'',
       industry = ''hvac'', da = Some (20::int)\<rparr>,
      \<lparr>url = ''https://a.example'', state = ''CA'', city = ''LA'',
       industry = ''plumbing'', da = Some 0\<rparr>,
      \<lparr>url = ''https://c.example'', state = ''CA'', city = ''SD'',
       industry = ''plumbing'', da = Some 35\<rparr>,
      \<lparr>url = ''https://d.example'', state = ''CA'', city = ''SF'',
       industry = ''roofing'', da = Some 10\<rparr>]"
  have h: "\<forall>s \<in> set ?l. url s \<noteq> url ?y \<longrightarrow> (industry ?y = industry s \<or>
    (industry ?y \<notin> set Object_prototype_names \<and> industry s \<notin> set Object_prototype_names))"
    by (simp add: Object_prototype_names_def)
  from findMatches_ranks[OF h] obtain r where "findMatches ?y ?l = Inr r" by blast
  then show ?thesis
    by (simp add: findMatches_def score_site_def da_ge_def isRelatedIndustry_def
      opt_includes_def get_related_def RELATED_INDUSTRIES_def Object_prototype_names_def
      sort_cmp_def annotate_def site.extend_def scored.fields_def)
qed

section \<open>Properties of the link verifier\<close>

lemma find_as_filter: "find P xs = (case filter P xs of [] \<Rightarrow> None | x # _ \<Rightarrow> Some x)"
  by (induction xs) auto

lemma choose_best_alt:
  "choose_best opts ml =
     (if dofollow opts then (case filter isDoFollow ml of [] \<Rightarrow> None | d # _ \<Rightarrow> Some d)
      else (case ml of [] \<Rightarrow> None | x # _ \<Rightarrow> Some x))"
  by (cases ml) (simp_all add: choose_best_def)

lemma choose_best_find:
  "choose_best opts (filter P ls) = find (\<lambda>l. P l \<and> (dofollow opts \<longrightarrow> isDoFollow l)) ls"
proof (cases "dofollow opts")
  case True
  have "filter isDoFollow (filter P ls) = filter (\<lambda>l. P l \<and> isDoFollow l) ls"
    by (simp add: conj_commute)
  then show ?thesis using True
    by (simp add: choose_best_alt find_as_filter)
next
  case False
  then show ?thesis
    by (simp add: choose_best_alt find_as_filter)
qed

lemma check_links_verified:
  assumes "verified (check_links page target opts ml)"
  shows "ml \<noteq> [] \<and> bestMatch (check_links page target opts ml) = choose_best opts ml
     \<and> choose_best opts ml \<noteq> None
     \<and> anchor_failure opts ml = None \<and> exact_failure opts ml = None"
  using assms
  by (auto simp: check_links_def failure_def split: option.splits if_splits)

lemma verifyBacklink_fulfilled:
  assumes "verifyBacklink fuel net URL page target opts = Some (Fulfilled r)" "verified r"
  shows "\<exists>html. fetchPage fuel net URL page = Some (Fulfilled html) \<and>
      r = check_links page target opts (filter (points_to URL page target) (extractLinks html))"
  using assms
  by (auto simp: verifyBacklink_def split: option.splits outcome.splits)

lemma fetch_links_page:
  "fetchPage (Suc 0) sample_net sample_URL ''https://partner.example/links''
     = Some (Fulfilled two_links_page)"
  by (simp add: sample_net_def redirect_location_def)

lemma fetch_nested_page:
  "fetchPage (Suc 0) sample_net sample_URL ''https://partner.example/nested''
     = Some (Fulfilled nested_anchor_page)"
  by (simp add: sample_net_def redirect_location_def)

lemma fetch_gone_page:
  "fetchPage (Suc 0) sample_net sample_URL ''https://partner.example/gone''
     = Some (Rejected ''HTTP 404'')"
  by (simp add: sample_net_def redirect_location_def show_nat.simps[of 404]
      show_nat.simps[of 40] show_nat.simps[of 4])

lemma extract_two_links:
  "extractLinks two_links_page =
     [\<lparr>href = ''https://target.com/a'', anchor = ''foo'', rel = [], isDoFollow = True,
       isSponsored = False, isUGC = False\<rparr>,
      \<lparr>href = ''https://target.com/b'', anchor = ''bar'', rel = [], isDoFollow = True,
       isSponsored = False, isUGC = False\<rparr>]"
  by code_simp

lemma verify_two_links_anchor_bar:
  "verifyBacklink (Suc 0) sample_net sample_URL ''https://partner.example/links'' ''target.com''
     \<lparr>dofollow = False, anchor_opt = Some ''bar'', exactUrl = None\<rparr> =
   Some (Fulfilled
     \<lparr>verified = True, pageUrl = ''https://partner.example/links'',
      targetDomain = ''target.com'',
      linksFound = Some
        [\<lparr>href = ''https://target.com/a'', anchor = ''foo'', rel = [], isDoFollow = True,
          isSponsored = False, isUGC = False\<rparr>,
         \<lparr>href = ''https://target.com/b'', anchor = ''bar'', rel = [], isDoFollow = True,
          isSponsored = False, isUGC = False\<rparr>],
      bestMatch = Some
        \<lparr>href = ''https://target.com/a'', anchor = ''foo'', rel = [], isDoFollow = True,
         isSponsored = False, isUGC = False\<rparr>,
      error = None, message = ''Found 2 link(s) to target.com''\<rparr>)"
  by code_simp

text \<open>
  Claim C2: on success \<open>bestMatch\<close> is the first link that satisfies all the active
  constraints. It is not: the anchor and exact-URL requirements are tested on the whole
  list of links to the target and never on \<open>bestMatch\<close>. On the page with the links
  \<open>foo\<close> and \<open>bar\<close> and the required anchor text \<open>bar\<close>, the check succeeds and
  \<open>bestMatch\<close> is the link \<open>foo\<close>.
\<close>

theorem C2_bestMatch_ignores_anchor_counterexample:
  "verifyBacklink (Suc 0) sample_net sample_URL ''https://partner.example/links'' ''target.com''
     \<lparr>dofollow = False, anchor_opt = Some ''bar'', exactUrl = None\<rparr> =
   Some (Fulfilled
     \<lparr>verified = True, pageUrl = ''https://partner.example/links'',
      targetDomain = ''target.com'',
      linksFound = Some
        [\<lparr>href = ''https://target.com/a'', anchor = ''foo'', rel = [], isDoFollow = True,
          isSponsored = False, isUGC = False\<rparr>,
         \<lparr>href = ''https://target.com/b'', anchor = ''bar'', rel = [], isDoFollow = True,
          isSponsored = False, isUGC = False\<rparr>],
      bestMatch = Some
        \<lparr>href = ''https://target.com/a'', anchor = ''foo'', rel = [], isDoFollow = True,
         isSponsored = False, isUGC = False\<rparr>,
      error = None, message = ''Found 2 link(s) to target.com''\<rparr>)
   \<and> \<not> str_includes (toLowerCase ''foo'') (toLowerCase ''bar'')"
proof -
  have "\<not> str_includes (toLowerCase ''foo'') (toLowerCase ''bar'')"
    by code_simp
  with verify_two_links_anchor_bar show ?thesis by blast
qed

text \<open>
  Claim C2 as amended: on success \<open>bestMatch\<close> is the first link, in document order,
  that points to the target domain and, when \<open>dofollow\<close> is set, is dofollow. A required
  anchor text and a required exact URL are each met by some link to the target, which
  need not be \<open>bestMatch\<close>.
\<close>

theorem C2_bestMatch_first_domain_dofollow:
  assumes "verifyBacklink fuel net URL page target opts = Some (Fulfilled r)" and "verified r"
  shows "\<exists>html. fetchPage fuel net URL page = Some (Fulfilled html) \<and>
     bestMatch r \<noteq> None \<and>
     bestMatch r = find (\<lambda>l. points_to URL page target l \<and> (dofollow opts \<longrightarrow> isDoFollow l))
                     (extractLinks html) \<and>
     (\<forall>a. anchor_opt opts = Some a \<and> a \<noteq> [] \<longrightarrow>
        (\<exists>l \<in> set (extractLinks html). points_to URL page target l \<and>
           str_includes (toLowerCase (anchor l)) (toLowerCase a))) \<and>
     (\<forall>u. exactUrl opts = Some u \<and> u \<noteq> [] \<longrightarrow>
        (\<exists>l \<in> set (extractLinks html). points_to URL page target l \<and> href l = u))"
proof -
  from verifyBacklink_fulfilled[OF assms] obtain html where
    f: "fetchPage fuel net URL page = Some (Fulfilled html)" and
    r: "r = check_links page target opts (filter (points_to URL page target) (extractLinks html))"
    by blast
  let ?ml = "filter (points_to URL page target) (extractLinks html)"
  from check_links_verified[of page target opts ?ml] assms(2) r
  have b: "bestMatch r = choose_best opts ?ml" "choose_best opts ?ml \<noteq> None"
    and af: "anchor_failure opts ?ml = None" and ef: "exact_failure opts ?ml = None"
    by auto
  have a: "\<forall>a. anchor_opt opts = Some a \<and> a \<noteq> [] \<longrightarrow>
        (\<exists>l \<in> set (extractLinks html). points_to URL page target l \<and>
           str_includes (toLowerCase (anchor l)) (toLowerCase a))"
    using af by (auto simp: anchor_failure_def list_ex_iff split: option.splits if_splits)
  have e: "\<forall>u. exactUrl opts = Some u \<and> u \<noteq> [] \<longrightarrow>
        (\<exists>l \<in> set (extractLinks html). points_to URL page target l \<and> href l = u)"
    using ef by (auto simp: exact_failure_def list_ex_iff split: option.splits if_splits)
  have b1: "bestMatch r \<noteq> None" using b by simp
  have b2: "bestMatch r = find (\<lambda>l. points_to URL page target l \<and> (dofollow opts \<longrightarrow> isDoFollow l))
                     (extractLinks html)"
    using b(1) by (simp only: choose_best_find)
  show ?thesis
    by (intro exI[of _ html] conjI) (rule f b1 b2 a e)+
qed

theorem C2_bestMatch_first_domain_dofollow_witness:
  "find (\<lambda>l. points_to sample_URL ''https://partner.example/links'' ''target.com'' l \<and>
             (dofollow \<lparr>dofollow = False, anchor_opt = Some ''bar'', exactUrl = None\<rparr>
                \<longrightarrow> isDoFollow l))
        (extractLinks two_links_page)
   = Some \<lparr>href = ''https://target.com/a'', anchor = ''foo'', rel = [], isDoFollow = True,
           isSponsored = False, isUGC = False\<rparr>"
proof -
  let ?opts = "\<lparr>dofollow = False, anchor_opt = Some ''bar'', exactUrl = None\<rparr>"
  let ?r = "\<lparr>verified = True, pageUrl = ''https://partner.example/links'',
      targetDomain = ''target.com'',
      linksFound = Some
        [\<lparr>href = ''https://target.com/a'', anchor = ''foo'', rel = [], isDoFollow = True,
          isSponsored = False, isUGC = False\<rparr>,
         \<lparr>href = ''https://target.com/b'', anchor = ''bar'', rel = [], isDoFollow = True,
          isSponsored = False, isUGC = False\<rparr>],
      bestMatch = Some
        \<lparr>href = ''https://target.com/a'', anchor = ''foo'', rel = [], isDoFollow = True,
         isSponsored = False, isUGC = False\<rparr>,
      error = None, message = ''Found 2 link(s) to target.com''\<rparr>"
  have v: "verified ?r" by simp
  from C2_bestMatch_first_domain_dofollow[OF verify_two_links_anchor_bar v]
  obtain html where
    h: "fetchPage (Suc 0) sample_net sample_URL ''https://partner.example/links''
          = Some (Fulfilled html)"
    and b: "bestMatch ?r = find (\<lambda>l. points_to sample_URL ''https://partner.example/links''
               ''target.com'' l \<and> (dofollow ?opts \<longrightarrow> isDoFollow l)) (extractLinks html)"
    by blast
  from h have "html = two_links_page" unfolding fetch_links_page by simp
  with b show ?thesis by simp
qed

text \<open>
  Claim C4: \<open>verifyBacklink\<close> never lets an exception past its boundary. Its own
  \<open>try\<close>/\<open>catch\<close> turns every rejection of \<open>fetchPage\<close> into a result, but
  \<open>fetchPage\<close> resolves a relative redirect with \<open>new URL(location, url)\<close> inside the
  response callback, where nothing catches (the same constructor is wrapped in
  \<open>try\<close>/\<open>catch\<close> in the link filter). A page that answers 302 with
  \<open>Location: //[\<close> makes the constructor throw there: no result is returned and the
  exception is uncaught.
\<close>

theorem C4_uncaught_on_malformed_redirect:
  "verifyBacklink (Suc 0) sample_net sample_URL ''https://partner.example/moved'' ''target.com''
     no_options = Some (Uncaught ''Invalid URL'')"
  by (simp add: verifyBacklink_def sample_net_def sample_URL_def redirect_location_def)

text \<open>
  What claim C4 says about the failures it lists holds: the promise of \<open>verifyBacklink\<close>
  is never rejected, and a terminal status other than 200, a request error and a timeout
  each give a result with \<open>verified = false\<close> whose message names the fetch error.
\<close>

theorem verifyBacklink_fetch_failures:
  "verifyBacklink fuel net URL page target opts \<noteq> Some (Rejected e) \<and>
   (fetchPage fuel net URL page = Some (Rejected e) \<longrightarrow>
      verifyBacklink fuel net URL page target opts =
        Some (Fulfilled \<lparr>verified = False, pageUrl = page, targetDomain = target,
               linksFound = None, bestMatch = None, error = Some e,
               message = ''Failed to fetch page: '' @ e\<rparr>)) \<and>
   (net page = RequestError e \<longrightarrow> fetchPage (Suc n) net URL page = Some (Rejected e)) \<and>
   (net page = Timeout \<longrightarrow>
      fetchPage (Suc n) net URL page = Some (Rejected ''Request timed out'')) \<and>
   (net page = Response res \<and> redirect_location res = None \<and> statusCode res \<noteq> 200 \<longrightarrow>
      fetchPage (Suc n) net URL page = Some (Rejected (''HTTP '' @ show_nat (statusCode res))))"
  by (auto simp: verifyBacklink_def split: option.splits outcome.splits)

theorem verifyBacklink_fetch_failures_witness:
  "verifyBacklink (Suc 0) sample_net sample_URL ''https://partner.example/gone'' ''target.com''
     no_options =
   Some (Fulfilled \<lparr>verified = False, pageUrl = ''https://partner.example/gone'',
          targetDomain = ''target.com'', linksFound = None, bestMatch = None,
          error = Some ''HTTP 404'', message = ''Failed to fetch page: HTTP 404''\<rparr>)"
  using verifyBacklink_fetch_failures[of "Suc 0" sample_net sample_URL
      "''https://partner.example/gone''" "''target.com''" no_options "''HTTP 404''"]
    fetch_gone_page
  by (simp del: fetchPage.simps)

lemma verify_check_settles:
  assumes "fetchPage fuel net URL (check_pageUrl c) = Some out" "\<forall>e. out \<noteq> Uncaught e"
    and "out \<noteq> Pending"
  shows "\<exists>r. verify_check fuel net URL c = Some (Fulfilled r)"
  using assms by (cases out) (auto simp: verify_check_def verifyBacklink_def)

lemma batch_loop_all:
  assumes "\<forall>c \<in> set cs. \<exists>r. verify_check fuel net URL c = Some (Fulfilled r)"
  shows "\<exists>rs. batch_loop fuel net URL acc cs = Some (Fulfilled (acc @ rs)) \<and>
     map (\<lambda>r. Some (Fulfilled r)) rs = map (verify_check fuel net URL) cs"
  using assms
proof (induction cs arbitrary: acc)
  case Nil
  then show ?case by simp
next
  case (Cons c cs)
  from Cons.prems obtain r where r: "verify_check fuel net URL c = Some (Fulfilled r)"
    by auto
  from Cons.IH[of "acc @ [r]"] Cons.prems obtain rs where
    rs: "batch_loop fuel net URL (acc @ [r]) cs = Some (Fulfilled ((acc @ [r]) @ rs))"
      "map (\<lambda>r. Some (Fulfilled r)) rs = map (verify_check fuel net URL) cs"
    by auto
  have "batch_loop fuel net URL acc (c # cs) = Some (Fulfilled (acc @ (r # rs)))"
    using r rs(1) by simp
  moreover have "map (\<lambda>r. Some (Fulfilled r)) (r # rs) = map (verify_check fuel net URL) (c # cs)"
    using r rs(2) by simp
  ultimately show ?case by blast
qed

lemma verify_links_check:
  "verify_check (Suc 0) sample_net sample_URL
     \<lparr>check_pageUrl = ''https://partner.example/links'', check_targetDomain = ''target.com'',
      check_options = None\<rparr> =
   Some (Fulfilled
     \<lparr>verified = True, pageUrl = ''https://partner.example/links'',
      targetDomain = ''target.com'',
      linksFound = Some
        [\<lparr>href = ''https://target.com/a'', anchor = ''foo'', rel = [], isDoFollow = True,
          isSponsored = False, isUGC = False\<rparr>,
         \<lparr>href = ''https://target.com/b'', anchor = ''bar'', rel = [], isDoFollow = True,
          isSponsored = False, isUGC = False\<rparr>],
      bestMatch = Some
        \<lparr>href = ''https://target.com/a'', anchor = ''foo'', rel = [], isDoFollow = True,
         isSponsored = False, isUGC = False\<rparr>,
      error = None, message = ''Found 2 link(s) to target.com''\<rparr>)"
  by code_simp

lemma batch_moved_then_links:
  "batchVerify (Suc 0) sample_net sample_URL
     [\<lparr>check_pageUrl = ''https://partner.example/moved'', check_targetDomain = ''target.com'',
       check_options = None\<rparr>,
      \<lparr>check_pageUrl = ''https://partner.example/links'', check_targetDomain = ''target.com'',
       check_options = None\<rparr>] = Some (Uncaught ''Invalid URL'')"
  by (simp add: batchVerify_def verify_check_def verifyBacklink_def sample_net_def
      sample_URL_def redirect_location_def)

lemma batch_cut_then_links:
  "batchVerify (Suc 0) sample_net sample_URL
     [\<lparr>check_pageUrl = ''https://partner.example/cut'', check_targetDomain = ''target.com'',
       check_options = None\<rparr>,
      \<lparr>check_pageUrl = ''https://partner.example/links'', check_targetDomain = ''target.com'',
       check_options = None\<rparr>] = Some Pending"
  by (simp add: batchVerify_def verify_check_def verifyBacklink_def sample_net_def
      sample_URL_def redirect_location_def)

text \<open>
  Claim C8: for every list of checks \<open>batchVerify\<close> returns one result per check, and a
  check that fails never keeps the remaining checks from being processed. The loop awaits
  \<open>verifyBacklink\<close> and goes on when that promise is fulfilled, so the defect of claim
  C4 stops the batch: with the page that redirects to \<open>//[\<close> as the first check and the
  page with two links as the second, the exception of the first check is uncaught,
  \<open>batchVerify\<close> returns no list, and the second check, which alone verifies, is never
  processed. A first check whose connection closes in the middle of the body leaves the
  batch pending in the same way.
\<close>

theorem C8_batch_stops_at_malformed_redirect:
  "batchVerify (Suc 0) sample_net sample_URL
     [\<lparr>check_pageUrl = ''https://partner.example/moved'', check_targetDomain = ''target.com'',
       check_options = None\<rparr>,
      \<lparr>check_pageUrl = ''https://partner.example/links'', check_targetDomain = ''target.com'',
       check_options = None\<rparr>] = Some (Uncaught ''Invalid URL'') \<and>
   batchVerify (Suc 0) sample_net sample_URL
     [\<lparr>check_pageUrl = ''https://partner.example/cut'', check_targetDomain = ''target.com'',
       check_options = None\<rparr>,
      \<lparr>check_pageUrl = ''https://partner.example/links'', check_targetDomain = ''target.com'',
       check_options = None\<rparr>] = Some Pending \<and>
   (\<exists>r. batchVerify (Suc 0) sample_net sample_URL
     [\<lparr>check_pageUrl = ''https://partner.example/links'', check_targetDomain = ''target.com'',
       check_options = None\<rparr>] = Some (Fulfilled [r]) \<and> verified r)"
proof -
  have "\<exists>r. batchVerify (Suc 0) sample_net sample_URL
     [\<lparr>check_pageUrl = ''https://partner.example/links'', check_targetDomain = ''target.com'',
       check_options = None\<rparr>] = Some (Fulfilled [r]) \<and> verified r"
    by (simp add: batchVerify_def verify_links_check)
  with batch_moved_then_links batch_cut_then_links show ?thesis by blast
qed

text \<open>
  What claim C8 says holds of the lists of checks whose page fetches all settle (resolve
  or reject, within the requests counted by \<open>fuel\<close>): the list returned holds, position
  by position, the result of \<open>verifyBacklink\<close> on each check, failed ones included.
\<close>

theorem batchVerify_one_result_per_check:
  assumes "\<forall>c \<in> set checks. \<exists>out. fetchPage fuel net URL (check_pageUrl c) = Some out \<and>
             (\<forall>e. out \<noteq> Uncaught e) \<and> out \<noteq> Pending"
  shows "\<exists>rs. batchVerify fuel net URL checks = Some (Fulfilled rs) \<and>
     length rs = length checks \<and>
     map (\<lambda>r. Some (Fulfilled r)) rs = map (verify_check fuel net URL) checks"
proof -
  from assms have "\<forall>c \<in> set checks. \<exists>r. verify_check fuel net URL c = Some (Fulfilled r)"
    by (blast intro: verify_check_settles)
  from batch_loop_all[OF this, of "[]"] obtain rs where
    rs: "batchVerify fuel net URL checks = Some (Fulfilled rs)"
      "map (\<lambda>r. Some (Fulfilled r)) rs = map (verify_check fuel net URL) checks"
    by (auto simp: batchVerify_def)
  from rs(2) have "length rs = length checks"
    by (metis length_map)
  with rs show ?thesis by blast
qed

theorem batchVerify_one_result_per_check_witness:
  "\<exists>rs. batchVerify (Suc 0) sample_net sample_URL
       [\<lparr>check_pageUrl = ''https://partner.example/gone'', check_targetDomain = ''target.com'',
         check_options = None\<rparr>,
        \<lparr>check_pageUrl = ''https://partner.example/links'', check_targetDomain = ''target.com'',
         check_options = Some \<lparr>dofollow = False, anchor_opt = Some ''bar'', exactUrl = None\<rparr>\<rparr>]
     = Some (Fulfilled rs) \<and> length rs = 2 \<and> map verified rs = [False, True]"
proof -
  let ?c1 = "\<lparr>check_pageUrl = ''https://partner.example/gone'',
       check_targetDomain = ''target.com'', check_options = None\<rparr>"
  let ?c2 = "\<lparr>check_pageUrl = ''https://partner.example/links'',
       check_targetDomain = ''target.com'',
       check_options = Some \<lparr>dofollow = False, anchor_opt = Some ''bar'', exactUrl = None\<rparr>\<rparr>"
  have h: "\<forall>c \<in> set [?c1, ?c2]. \<exists>out. fetchPage (Suc 0) sample_net sample_URL (check_pageUrl c)
       = Some out \<and> (\<forall>e. out \<noteq> Uncaught e) \<and> out \<noteq> Pending"
    by (simp add: fetch_gone_page fetch_links_page del: fetchPage.simps)
  from batchVerify_one_result_per_check[OF h] obtain rs where
    b: "batchVerify (Suc 0) sample_net sample_URL [?c1, ?c2] = Some (Fulfilled rs)" and
    l: "length rs = length [?c1, ?c2]" and
    m: "map (\<lambda>r. Some (Fulfilled r)) rs = map (verify_check (Suc 0) sample_net sample_URL) [?c1, ?c2]"
    by blast
  have v1: "verify_check (Suc 0) sample_net sample_URL ?c1 =
      Some (Fulfilled \<lparr>verified = False, pageUrl = ''https://partner.example/gone'',
          targetDomain = ''target.com'', linksFound = None, bestMatch = None,
          error = Some ''HTTP 404'', message = ''Failed to fetch page: HTTP 404''\<rparr>)"
    by (simp add: verify_check_def verifyBacklink_def fetch_gone_page no_options_def
        del: fetchPage.simps)
  have v2: "\<exists>r. verify_check (Suc 0) sample_net sample_URL ?c2 = Some (Fulfilled r) \<and> verified r"
    by (simp add: verify_check_def verify_two_links_anchor_bar)
  from l obtain r1 r2 where rs: "rs = [r1, r2]"
    by (cases rs; cases "tl rs"; auto)
  from m v1 v2 rs have "map verified rs = [False, True]" by auto
  with b l show ?thesis by auto
qed

section \<open>Properties of link extraction\<close>

lemma greedy_sound:
  "t \<in> set (greedy c s) \<Longrightarrow> \<exists>w. s = w @ t \<and> list_all (in_cls c) w"
proof (induction s)
  case Nil
  then show ?case by simp
next
  case (Cons x xs)
  show ?case
  proof (cases "t = x # xs")
    case True
    then show ?thesis by simp
  next
    case False
    with Cons.prems have x: "in_cls c x" and t: "t \<in> set (greedy c xs)"
      by (auto split: if_splits)
    from Cons.IH[OF t] obtain w where "xs = w @ t" "list_all (in_cls c) w" by blast
    with x have "x # xs = (x # w) @ t \<and> list_all (in_cls c) (x # w)" by simp
    then show ?thesis by blast
  qed
qed

text \<open>Every match the matcher lists is a word of the expression, with its groups.\<close>

lemma match_sound:
  "(g, t) \<in> set (match r s) \<Longrightarrow> \<exists>w. s = w @ t \<and> lang r w g"
proof (induction r arbitrary: g t s)
  case Eps
  then show ?case by simp
next
  case (Atom c)
  then show ?case by (cases s) (auto split: if_splits)
next
  case (Star c)
  then show ?case by (auto dest: greedy_sound)
next
  case (Plus c)
  then obtain x xs where s: "s = x # xs" and x: "in_cls c x"
    and t: "t \<in> set (greedy c xs)" and g: "g = []"
    by (cases s) (auto split: if_splits)
  from greedy_sound[OF t] obtain w where "xs = w @ t" "list_all (in_cls c) w" by blast
  with s x g have "s = (x # w) @ t \<and> lang (Plus c) (x # w) g" by simp
  then show ?case by blast
next
  case (Seq a b)
  from Seq.prems obtain g1 t1 g2 where
    a: "(g1, t1) \<in> set (match a s)" and b: "(g2, t) \<in> set (match b t1)" and g: "g = g1 @ g2"
    by auto
  from Seq.IH(1)[OF a] obtain w1 where w1: "s = w1 @ t1" "lang a w1 g1" by blast
  from Seq.IH(2)[OF b] obtain w2 where w2: "t1 = w2 @ t" "lang b w2 g2" by blast
  from w1 w2 g have "s = (w1 @ w2) @ t \<and> lang (Seq a b) (w1 @ w2) g" by auto
  then show ?case by blast
next
  case (Group r)
  from Group.prems obtain g' where m: "(g', t) \<in> set (match r s)"
    and g: "g = take (length s - length t) s # g'"
    by auto
  from Group.IH[OF m] obtain w where w: "s = w @ t" "lang r w g'" by blast
  with g have "g = w # g'" by simp
  with w show ?case by auto
qed

lemma exec_sound:
  "exec r s = Some (g, t) \<Longrightarrow> \<exists>pre w. s = pre @ w @ t \<and> lang r w g"
proof (induction s)
  case Nil
  then have "(g, t) \<in> set (match r [])" by (auto split: list.splits)
  from match_sound[OF this] show ?case by auto
next
  case (Cons c cs)
  show ?case
  proof (cases "match r (c # cs)")
    case Nil
    with Cons.prems have "exec r cs = Some (g, t)" by simp
    from Cons.IH[OF this] obtain pre w where "cs = pre @ w @ t" "lang r w g" by blast
    then have "c # cs = (c # pre) @ w @ t \<and> lang r w g" by simp
    then show ?thesis by blast
  next
    case (Cons m ms)
    with Cons.prems have "(g, t) \<in> set (match r (c # cs))" by auto
    from match_sound[OF this] obtain w where "c # cs = [] @ w @ t" "lang r w g" by auto
    then show ?thesis by blast
  qed
qed

lemma extractLinks_sound:
  "l \<in> set (extractLinks html) \<Longrightarrow>
   \<exists>pre w post g. html = pre @ w @ post \<and> lang linkRegex w g \<and> l = make_link g"
proof (induction html rule: extractLinks.induct)
  case (1 html)
  show ?case
  proof (cases "exec linkRegex html")
    case None
    with "1.prems" show ?thesis by (simp add: extractLinks.simps)
  next
    case (Some m)
    obtain g t where m: "m = (g, t)" by (cases m)
    from exec_sound[OF Some[unfolded m]] obtain pre w where
      h: "html = pre @ w @ t" and lg: "lang linkRegex w g" by blast
    from "1.prems" Some m have "l = make_link g \<or> l \<in> set (extractLinks t)"
      by (simp add: extractLinks.simps[of html])
    then show ?thesis
    proof
      assume "l = make_link g"
      with h lg show ?thesis by blast
    next
      assume "l \<in> set (extractLinks t)"
      from "1.IH"[OF Some m[symmetric] this] obtain pre' w' post' g' where
        "t = pre' @ w' @ post'" "lang linkRegex w' g'" "l = make_link g'" by blast
      with h have "html = (pre @ w @ pre') @ w' @ post' \<and> lang linkRegex w' g' \<and> l = make_link g'"
        by simp
      then show ?thesis by blast
    qed
  qed
qed

lemma toUpperChar_symbol:
  "toUpperChar x = CHR ''<'' \<longleftrightarrow> x = CHR ''<''"
  "toUpperChar x = CHR ''>'' \<longleftrightarrow> x = CHR ''>''"
  "toUpperChar x = CHR ''/'' \<longleftrightarrow> x = CHR ''/''"
  "toUpperChar x = CHR ''='' \<longleftrightarrow> x = CHR ''=''"
  by (auto simp: toUpperChar_def lower_letters_def upper_letters_def split: if_splits)

lemma toUpperChar_letters:
  "toUpperChar CHR ''a'' = CHR ''A''" "toUpperChar CHR ''h'' = CHR ''H''"
  "toUpperChar CHR ''r'' = CHR ''R''" "toUpperChar CHR ''e'' = CHR ''E''"
  "toUpperChar CHR ''f'' = CHR ''F''" "toUpperChar CHR ''l'' = CHR ''L''"
  "toUpperChar CHR ''<'' = CHR ''<''" "toUpperChar CHR ''>'' = CHR ''>''"
  "toUpperChar CHR ''/'' = CHR ''/''" "toUpperChar CHR ''='' = CHR ''=''"
  by (simp_all add: toUpperChar_def lower_letters_def upper_letters_def)

text \<open>A word of \<open>linkRegex\<close> is an anchor element with a body free of \<open><\<close>, and has three groups.\<close>

lemma match_linkRegex_shape:
  assumes "lang linkRegex w g"
  shows "\<exists>attrs v itext. g = [attrs, v, itext] \<and> anchor_element w v itext \<and>
           CHR ''<'' \<notin> set itext"
  using assms
  apply (clarsimp simp: linkRegex_def cat_def toUpperChar_letters toUpperChar_symbol list_all_iff)
  apply (simp add: anchor_element_def list_all_iff)
  apply (intro conjI exI)
                 apply (rule refl)
                apply (assumption | simp | fast)+
  done

lemma make_link_fields:
  "href (make_link [attrs, v, itext]) = trim v"
  "anchor (make_link [attrs, v, itext]) = trim itext"
  by (simp_all add: make_link_def Let_def)

lemma no_links_message:
  assumes "fetchPage fuel net URL page = Some (Fulfilled html)"
    and "\<forall>l \<in> set (extractLinks html). \<not> points_to URL page target l"
  shows "verifyBacklink fuel net URL page target opts =
     Some (Fulfilled (failure page target None ''No links found to target domain''))"
proof -
  from assms(2) have "filter (points_to URL page target) (extractLinks html) = []"
    by (auto simp: filter_empty_conv)
  with assms(1) show ?thesis by (simp add: verifyBacklink_def check_links_def)
qed

text \<open>
  The first occurrence of a character splits a text in one way only, and the letters of
  \<open>href\<close> are neither white space, quotes, \<open>=\<close> nor \<open>>\<close>.
\<close>

lemma first_occurrence_unique:
  "P @ c # X = Q @ c # Y \<Longrightarrow> c \<notin> set P \<Longrightarrow> c \<notin> set Q \<Longrightarrow> P = Q \<and> X = Y"
proof (induction P arbitrary: Q)
  case Nil
  then show ?case by (cases Q) auto
next
  case (Cons p P)
  then show ?case by (cases Q) auto
qed

lemma symbols_not_letters:
  "list_all (\<lambda>x. toUpperChar x \<notin> set ''AHREF'') (''>='' @ whitespace @ quotes)"
  by (simp add: toUpperChar_def lower_letters_def upper_letters_def whitespace_def quotes_def)

lemma upper_letter_not_symbol:
  assumes "toUpperChar x \<in> set ''AHREF''"
  shows "x \<notin> set (''>='' @ whitespace @ quotes)"
  using assms symbols_not_letters unfolding list_all_iff by blast

lemma gt_not_ws: "CHR ''>'' \<notin> set whitespace" "CHR ''='' \<notin> set whitespace"
  "CHR ''>'' \<notin> set quotes"
  by (simp_all add: whitespace_def quotes_def)

lemma ws_not_gt: "list_all (\<lambda>c. c \<in> set whitespace) xs \<Longrightarrow> CHR ''>'' \<notin> set xs"
  using gt_not_ws(1) by (induction xs) auto

lemma dropWhile_ws_append:
  "list_all (\<lambda>c. c \<in> set whitespace) xs \<Longrightarrow> y \<notin> set whitespace \<Longrightarrow>
   dropWhile (\<lambda>c. c \<in> set whitespace) (xs @ y # ys) = y # ys"
  by (induction xs) auto

lemma dangling_intro:
  assumes tag: "tag = p0 @ [h, r, e, f] @ sp1 @ ''='' @ sp2 @ [q] @ u"
    and up: "map toUpperChar [h, r, e, f] = ''HREF''"
    and sp: "list_all (\<lambda>c. c \<in> set whitespace) (sp1 @ sp2)"
    and q: "q \<in> set quotes"
    and u: "list_all (\<lambda>c. c \<notin> set quotes) u"
  shows "dangling_href_quote tag"
proof -
  have r: "rev tag = rev u @ q # (rev sp2 @ CHR ''='' # (rev sp1 @ f # e # r # h # rev p0))"
    using tag by simp
  have "dropWhile (\<lambda>c. c \<notin> set quotes) (rev tag)
      = q # (rev sp2 @ CHR ''='' # (rev sp1 @ f # e # r # h # rev p0))"
    unfolding r using u q by (simp add: dropWhile_append3 list_all_iff)
  moreover have "ends_with_href_eq (rev sp2 @ CHR ''='' # (rev sp1 @ f # e # r # h # rev p0))"
  proof -
    have "toUpperChar f \<in> set ''AHREF''" using up by simp
    from upper_letter_not_symbol[OF this] have f: "f \<notin> set whitespace" by simp
    have s1: "list_all (\<lambda>c. c \<in> set whitespace) (rev sp1)"
      and s2: "list_all (\<lambda>c. c \<in> set whitespace) (rev sp2)"
      using sp by (simp_all add: list_all_iff)
    show ?thesis
      unfolding ends_with_href_eq_def
      using up by (simp add: dropWhile_ws_append[OF s2 gt_not_ws(2)] dropWhile_ws_append[OF s1 f])
  qed
  ultimately show ?thesis by (simp add: dangling_href_quote_def)
qed

text \<open>
  No piece of the page that reads as an anchor element with a body free of \<open><\<close> starts
  at an anchor whose opening tag has no \<open>>\<close> and no dangling quote after \<open>href=\<close>
  and whose body has markup other than \<open></a>\<close> after its leading text.
\<close>

lemma nested_anchor_no_piece:
  assumes gt: "CHR ''>'' \<notin> set tag"
    and lt: "CHR ''<'' \<notin> set lead"
    and nd: "\<not> dangling_href_quote tag"
    and nc: "\<not> closes_anchor rest"
    and s: "[CHR ''<'', a1] @ tag @ ''>'' @ lead @ ''<'' @ rest = w @ t"
    and ae: "anchor_element w v itext"
    and nl: "CHR ''<'' \<notin> set itext"
  shows False
proof -
  from ae obtain a1' ws before h r e f sp1 sp2 q1 q2 after a2 where
    w: "w = [CHR ''<'', a1'] @ ws @ before @ [h, r, e, f] @ sp1 @ ''='' @ sp2 @ [q1] @ v @ [q2] @
            after @ ''>'' @ itext @ [CHR ''<'', CHR ''/'', a2, CHR ''>'']"
    and up: "map toUpperChar [a1', h, r, e, f, a2] = ''AHREFA''"
    and sp: "list_all (\<lambda>c. c \<in> set whitespace) (ws @ sp1 @ sp2)"
    and bg: "CHR ''>'' \<notin> set before" and ag: "CHR ''>'' \<notin> set after"
    and q1: "q1 \<in> set quotes" and q2: "q2 \<in> set quotes"
    and vq: "list_all (\<lambda>c. c \<notin> set quotes) v"
    unfolding anchor_element_def by (elim exE conjE) (rule that, assumption+)
  let ?head = "ws @ before @ [h, r, e, f] @ sp1 @ ''='' @ sp2 @ [q1]"
  have eq: "tag @ CHR ''>'' # (lead @ CHR ''<'' # rest) =
      ?head @ v @ [q2] @ after @ CHR ''>'' # (itext @ [CHR ''<'', CHR ''/'', a2, CHR ''>''] @ t)"
    using s w by simp
  have lets: "\<And>x. x \<in> set [h, r, e, f] \<Longrightarrow> x \<noteq> CHR ''>''"
  proof -
    fix x assume "x \<in> set [h, r, e, f]"
    with up have "toUpperChar x \<in> set ''AHREF''" by auto
    from upper_letter_not_symbol[OF this] show "x \<noteq> CHR ''>''" by auto
  qed
  have wsg: "CHR ''>'' \<notin> set ws" "CHR ''>'' \<notin> set sp1" "CHR ''>'' \<notin> set sp2"
    using sp by (auto dest: ws_not_gt)
  have qg: "q1 \<noteq> CHR ''>''" "q2 \<noteq> CHR ''>''"
    using q1 q2 gt_not_ws(3) by auto
  have headg: "CHR ''>'' \<notin> set ?head"
    using wsg bg lets qg by auto
  show False
  proof (cases "CHR ''>'' \<in> set v")
    case False
    let ?Q = "?head @ v @ [q2] @ after"
    have Qg: "CHR ''>'' \<notin> set ?Q" using headg False qg ag by auto
    from eq have "tag @ CHR ''>'' # (lead @ CHR ''<'' # rest) =
        ?Q @ CHR ''>'' # (itext @ [CHR ''<'', CHR ''/'', a2, CHR ''>''] @ t)"
      by simp
    from first_occurrence_unique[OF this gt Qg]
    have "lead @ CHR ''<'' # rest = itext @ CHR ''<'' # (CHR ''/'' # a2 # CHR ''>'' # t)"
      by simp
    from first_occurrence_unique[OF this lt nl]
    have "rest = CHR ''/'' # a2 # CHR ''>'' # t" by simp
    moreover from up have "toUpperChar a2 = CHR ''A''" by simp
    ultimately have "closes_anchor rest" by (simp add: closes_anchor_def)
    with nc show False by simp
  next
    case True
    from split_list_first[OF True] obtain v1 v2 where
      v: "v = v1 @ CHR ''>'' # v2" and v1g: "CHR ''>'' \<notin> set v1" by blast
    let ?Q = "?head @ v1"
    have Qg: "CHR ''>'' \<notin> set ?Q" using headg v1g by auto
    from eq v have "tag @ CHR ''>'' # (lead @ CHR ''<'' # rest) =
        ?Q @ CHR ''>'' # (v2 @ [q2] @ after @ CHR ''>'' #
           (itext @ [CHR ''<'', CHR ''/'', a2, CHR ''>''] @ t))"
      by simp
    from first_occurrence_unique[OF this gt Qg]
    have tag: "tag = (ws @ before) @ [h, r, e, f] @ sp1 @ ''='' @ sp2 @ [q1] @ v1" by simp
    have "dangling_href_quote tag"
    proof (rule dangling_intro[OF tag])
      show "map toUpperChar [h, r, e, f] = ''HREF''" using up by simp
      show "list_all (\<lambda>c. c \<in> set whitespace) (sp1 @ sp2)" using sp by simp
      show "q1 \<in> set quotes" by (rule q1)
      show "list_all (\<lambda>c. c \<notin> set quotes) v1" using vq v by simp
    qed
    with nd show False by simp
  qed
qed

lemma nested_anchor_no_match:
  assumes "CHR ''>'' \<notin> set tag" "CHR ''<'' \<notin> set lead"
    and "\<not> dangling_href_quote tag" "\<not> closes_anchor rest"
  shows "match linkRegex ([CHR ''<'', a1] @ tag @ ''>'' @ lead @ ''<'' @ rest) = []"
proof (rule ccontr)
  let ?s = "[CHR ''<'', a1] @ tag @ ''>'' @ lead @ ''<'' @ rest"
  assume "match linkRegex ?s \<noteq> []"
  then obtain g t where "(g, t) \<in> set (match linkRegex ?s)"
    by (cases "match linkRegex ?s") auto
  from match_sound[OF this] obtain w where s: "?s = w @ t" and lg: "lang linkRegex w g" by blast
  from match_linkRegex_shape[OF lg] obtain v itext where
    "anchor_element w v itext" "CHR ''<'' \<notin> set itext" by blast
  with assms s show False by (rule nested_anchor_no_piece)
qed

text \<open>
  The links of a page with such an anchor come from the other places of the page: when
  no piece that reads as an anchor element elsewhere points to the target, no link does.
\<close>

lemma nested_anchor_page_links:
  assumes html: "html = pre @ [CHR ''<'', a1] @ tag @ ''>'' @ lead @ ''<'' @ rest"
    and nested: "CHR ''>'' \<notin> set tag" "CHR ''<'' \<notin> set lead"
      "\<not> dangling_href_quote tag" "\<not> closes_anchor rest"
    and others: "\<forall>p w post v itext l.
        html = p @ w @ post \<and> length p \<noteq> length pre \<and> anchor_element w v itext \<and>
        CHR ''<'' \<notin> set itext \<and> href l = trim v \<longrightarrow> \<not> points_to URL page target l"
    and l: "l \<in> set (extractLinks html)"
  shows "\<not> points_to URL page target l"
proof -
  from extractLinks_sound[OF l] obtain p w post g where
    h: "html = p @ w @ post" and lg: "lang linkRegex w g" and lm: "l = make_link g" by blast
  from match_linkRegex_shape[OF lg] obtain attrs v itext where
    g: "g = [attrs, v, itext]" and ae: "anchor_element w v itext"
    and nl: "CHR ''<'' \<notin> set itext"
    by blast
  from lm g have hr: "href l = trim v" by (simp add: make_link_fields)
  show ?thesis
  proof (cases "length p = length pre")
    case True
    with h html have "p = pre"
      and "[CHR ''<'', a1] @ tag @ ''>'' @ lead @ ''<'' @ rest = w @ post"
      by simp_all
    from nested this(2) ae nl have False by (rule nested_anchor_no_piece)
    then show ?thesis ..
  next
    case False
    with others h ae nl hr show ?thesis by blast
  qed
qed

lemma anchor_element_starts:
  assumes "anchor_element w v itext"
  shows "starts_anchor (w @ post)"
proof -
  from assms obtain a1 ws before h r e f sp1 sp2 q1 q2 after a2 where
    w: "w = [CHR ''<'', a1] @ ws @ before @ [h, r, e, f] @ sp1 @ ''='' @ sp2 @ [q1] @ v @ [q2] @
            after @ ''>'' @ itext @ [CHR ''<'', CHR ''/'', a2, CHR ''>'']"
    and up: "map toUpperChar [a1, h, r, e, f, a2] = ''AHREFA''"
    and n: "ws \<noteq> []"
    and sp: "list_all (\<lambda>c. c \<in> set whitespace) (ws @ sp1 @ sp2)"
    unfolding anchor_element_def by (elim exE conjE) (rule that, assumption+)
  from n obtain x xs where "ws = x # xs" by (cases ws) auto
  with w up sp show ?thesis by (simp add: starts_anchor_def)
qed

lemma nested_page_one_anchor_start:
  assumes "nested_anchor_page = p @ s" "starts_anchor s"
  shows "length p = 16"
proof -
  have "list_all (\<lambda>k. starts_anchor (drop k nested_anchor_page) \<longrightarrow> k = 16)
      [0..<Suc (length nested_anchor_page)]"
    by code_simp
  then have b: "\<forall>k \<in> set [0..<Suc (length nested_anchor_page)].
      starts_anchor (drop k nested_anchor_page) \<longrightarrow> k = 16"
    by (simp only: list_all_iff)
  have a: "k = 16" if "k \<le> length nested_anchor_page"
    "starts_anchor (drop k nested_anchor_page)" for k
  proof -
    from that(1) have "k \<in> set [0..<Suc (length nested_anchor_page)]"
      by (simp only: set_upt atLeastLessThan_iff less_Suc_eq_le) simp
    with b that(2) show ?thesis by blast
  qed
  have "length p \<le> length nested_anchor_page" "drop (length p) nested_anchor_page = s"
    by (simp_all add: assms(1))
  with a[of "length p"] assms(2) show ?thesis by simp
qed

lemma extractLinks_skip:
  assumes "match linkRegex (c # cs) = []"
  shows "extractLinks (c # cs) = extractLinks cs"
proof -
  from assms have e: "exec linkRegex (c # cs) = exec linkRegex cs" by simp
  show ?thesis
    by (subst extractLinks.simps[of "c # cs"], subst extractLinks.simps[of cs], simp only: e)
qed

lemma extract_quoted:
  "extractLinks quoted_href_page =
     [\<lparr>href = ''><b>target.com'', anchor = [], rel = [], isDoFollow = True,
       isSponsored = False, isUGC = False\<rparr>]"
  by code_simp

lemma verify_quoted:
  "verifyBacklink (Suc 0) sample_net sample_URL ''https://partner.example/quoted'' ''target.com''
     no_options =
   Some (Fulfilled
     \<lparr>verified = True, pageUrl = ''https://partner.example/quoted'',
      targetDomain = ''target.com'',
      linksFound = Some
        [\<lparr>href = ''><b>target.com'', anchor = [], rel = [], isDoFollow = True,
          isSponsored = False, isUGC = False\<rparr>],
      bestMatch = Some
        \<lparr>href = ''><b>target.com'', anchor = [], rel = [], isDoFollow = True,
         isSponsored = False, isUGC = False\<rparr>,
      error = None, message = ''Found 1 link(s) to target.com''\<rparr>)"
  by code_simp

text \<open>
  Claim C9: an anchor that wraps nested markup yields no link record, for every page, so
  a page whose only link to the target has nested markup in its anchor is reported as
  \<open>No links found to target domain\<close>. It is not so for every page. In
  \<open><a href="https://target.com/" title="see href="><b>target.com's site</b></a>\<close> the
  expression takes the quote that ends the \<open>title\<close> for the opening quote of a
  \<open>href\<close> value, reads the value \<open>><b>target.com\<close> up to the apostrophe and finds
  \<open>></a>\<close> after it: the anchor yields a record, that record contains the target domain,
  and the page verifies.
\<close>

theorem C9_nested_anchor_yields_link_counterexample:
  "quoted_href_page =
     ''<a href='' @ [CHR 0x22] @ ''https://target.com/'' @ [CHR 0x22] @ '' title='' @
     [CHR 0x22] @ ''see href='' @ [CHR 0x22] @ ''><b>target.com'' @ [CHR 0x27] @
     ''s site</b></a>'' \<and>
   extractLinks quoted_href_page =
     [\<lparr>href = ''><b>target.com'', anchor = [], rel = [], isDoFollow = True,
       isSponsored = False, isUGC = False\<rparr>] \<and>
   verifyBacklink (Suc 0) sample_net sample_URL ''https://partner.example/quoted'' ''target.com''
     no_options =
   Some (Fulfilled
     \<lparr>verified = True, pageUrl = ''https://partner.example/quoted'',
      targetDomain = ''target.com'',
      linksFound = Some
        [\<lparr>href = ''><b>target.com'', anchor = [], rel = [], isDoFollow = True,
          isSponsored = False, isUGC = False\<rparr>],
      bestMatch = Some
        \<lparr>href = ''><b>target.com'', anchor = [], rel = [], isDoFollow = True,
         isSponsored = False, isUGC = False\<rparr>,
      error = None, message = ''Found 1 link(s) to target.com''\<rparr>)"
  using extract_quoted verify_quoted by (simp add: quoted_href_page_def)

text \<open>
  Claim C9 as amended. \<open>extractLinks\<close> yields a link only for a piece of the page that
  reads as an anchor element whose opening tag carries \<open>href\<close>, \<open>=\<close> and a quoted
  non-empty value and whose body has no \<open><\<close>, with the trimmed value and the trimmed
  body as the fields of the link. An anchor that wraps nested markup (its body has, after
  a leading text that may be empty, a \<open><\<close> that does not open \<open></a>\<close>) yields no
  link when its opening tag has no \<open>>\<close> and no dangling quote after \<open>href=\<close>: no
  match starts at it, and extraction goes on after its \<open><\<close>. A page with such an
  anchor, no piece of which that reads as an anchor element elsewhere points to the
  target, is reported as \<open>No links found to target domain\<close>, whatever the nested
  anchor points to.
\<close>

theorem C9_links_only_from_plain_anchors:
  "(\<forall>l \<in> set (extractLinks html).
      \<exists>pre w post v itext. html = pre @ w @ post \<and> anchor_element w v itext \<and>
        CHR ''<'' \<notin> set itext \<and> href l = trim v \<and> anchor l = trim itext) \<and>
   (CHR ''>'' \<notin> set tag \<and> CHR ''<'' \<notin> set lead \<and> \<not> dangling_href_quote tag \<and>
    \<not> closes_anchor rest \<longrightarrow>
      match linkRegex ([CHR ''<'', a1] @ tag @ ''>'' @ lead @ ''<'' @ rest) = [] \<and>
      extractLinks ([CHR ''<'', a1] @ tag @ ''>'' @ lead @ ''<'' @ rest) =
        extractLinks (a1 # tag @ ''>'' @ lead @ ''<'' @ rest) \<and>
      (html = before @ [CHR ''<'', a1] @ tag @ ''>'' @ lead @ ''<'' @ rest \<and>
       fetchPage fuel net URL page = Some (Fulfilled html) \<and>
       (\<forall>p w post v itext l.
           html = p @ w @ post \<and> length p \<noteq> length before \<and> anchor_element w v itext \<and>
           CHR ''<'' \<notin> set itext \<and> href l = trim v \<longrightarrow> \<not> points_to URL page target l) \<longrightarrow>
         verifyBacklink fuel net URL page target opts =
           Some (Fulfilled \<lparr>verified = False, pageUrl = page, targetDomain = target,
                  linksFound = None, bestMatch = None, error = None,
                  message = ''No links found to target domain''\<rparr>)))"
proof (intro conjI ballI impI)
  fix l assume "l \<in> set (extractLinks html)"
  from extractLinks_sound[OF this] obtain pre w post g where
    h: "html = pre @ w @ post" and lg: "lang linkRegex w g" and l: "l = make_link g" by blast
  from match_linkRegex_shape[OF lg] obtain attrs v itext where
    g: "g = [attrs, v, itext]" and ae: "anchor_element w v itext"
    and nl: "CHR ''<'' \<notin> set itext"
    by blast
  from l g have "href l = trim v" "anchor l = trim itext" by (simp_all add: make_link_fields)
  with h ae nl show "\<exists>pre w post v itext. html = pre @ w @ post \<and> anchor_element w v itext \<and>
        CHR ''<'' \<notin> set itext \<and> href l = trim v \<and> anchor l = trim itext" by blast
next
  assume "CHR ''>'' \<notin> set tag \<and> CHR ''<'' \<notin> set lead \<and> \<not> dangling_href_quote tag \<and>
    \<not> closes_anchor rest"
  then show m: "match linkRegex ([CHR ''<'', a1] @ tag @ ''>'' @ lead @ ''<'' @ rest) = []"
    by (intro nested_anchor_no_match) simp_all
  from extractLinks_skip[of "CHR ''<''" "a1 # tag @ ''>'' @ lead @ ''<'' @ rest"] m
  show "extractLinks ([CHR ''<'', a1] @ tag @ ''>'' @ lead @ ''<'' @ rest) =
      extractLinks (a1 # tag @ ''>'' @ lead @ ''<'' @ rest)"
    by simp
next
  assume n: "CHR ''>'' \<notin> set tag \<and> CHR ''<'' \<notin> set lead \<and> \<not> dangling_href_quote tag \<and>
    \<not> closes_anchor rest"
  assume a: "html = before @ [CHR ''<'', a1] @ tag @ ''>'' @ lead @ ''<'' @ rest \<and>
    fetchPage fuel net URL page = Some (Fulfilled html) \<and>
    (\<forall>p w post v itext l.
        html = p @ w @ post \<and> length p \<noteq> length before \<and> anchor_element w v itext \<and>
        CHR ''<'' \<notin> set itext \<and> href l = trim v \<longrightarrow> \<not> points_to URL page target l)"
  note 1 = a[THEN conjunct1] and f = a[THEN conjunct2, THEN conjunct1]
    and 2 = a[THEN conjunct2, THEN conjunct2]
  note 3 = n[THEN conjunct1] n[THEN conjunct2, THEN conjunct1]
    n[THEN conjunct2, THEN conjunct2, THEN conjunct1]
    n[THEN conjunct2, THEN conjunct2, THEN conjunct2]
  have "\<forall>l \<in> set (extractLinks html). \<not> points_to URL page target l"
  proof
    fix l assume l: "l \<in> set (extractLinks html)"
    from 1 3 2 l show "\<not> points_to URL page target l" by (rule nested_anchor_page_links)
  qed
  from no_links_message[OF f this, of opts]
  show "verifyBacklink fuel net URL page target opts =
        Some (Fulfilled \<lparr>verified = False, pageUrl = page, targetDomain = target,
               linksFound = None, bestMatch = None, error = None,
               message = ''No links found to target domain''\<rparr>)"
    by (simp add: failure_def)
qed

theorem C9_links_only_from_plain_anchors_witness:
  "(\<exists>pre w post v itext. two_links_page = pre @ w @ post \<and> anchor_element w v itext \<and>
        CHR ''<'' \<notin> set itext \<and> ''https://target.com/a'' = trim v \<and> ''foo'' = trim itext) \<and>
   match linkRegex (''<a href='' @ [CHR 0x22] @ ''https://target.com/'' @ [CHR 0x22] @
      ''><b>Target</b></a>'') = [] \<and>
   verifyBacklink (Suc 0) sample_net sample_URL ''https://partner.example/nested''
      ''target.com'' no_options =
     Some (Fulfilled \<lparr>verified = False, pageUrl = ''https://partner.example/nested'',
            targetDomain = ''target.com'', linksFound = None, bestMatch = None, error = None,
            message = ''No links found to target domain''\<rparr>)"
proof -
  let ?l = "\<lparr>href = ''https://target.com/a'', anchor = ''foo'', rel = [], isDoFollow = True,
       isSponsored = False, isUGC = False\<rparr>"
  let ?tag = "'' href='' @ [CHR 0x22] @ ''https://target.com/'' @ [CHR 0x22]"
  let ?rest = "''b>Target</b></a>''"
  let ?pre = "''<p>Partners:</p>''"
  note c9 = C9_links_only_from_plain_anchors[where html = two_links_page]
  note c9n = C9_links_only_from_plain_anchors[where html = nested_anchor_page and tag = ?tag
      and lead = "[]" and rest = ?rest and ?a1.0 = "CHR ''a''" and before = ?pre
      and fuel = "Suc 0" and net = sample_net and URL = sample_URL
      and page = "''https://partner.example/nested''" and target = "''target.com''"
      and opts = no_options]
  have m: "?l \<in> set (extractLinks two_links_page)"
    by (simp add: extract_two_links)
  from c9[THEN conjunct1, rule_format, OF m]
  have a: "\<exists>pre w post v itext. two_links_page = pre @ w @ post \<and> anchor_element w v itext \<and>
      CHR ''<'' \<notin> set itext \<and> ''https://target.com/a'' = trim v \<and> ''foo'' = trim itext"
    by simp
  have t1: "CHR ''>'' \<notin> set ?tag" by simp
  have t2: "\<not> dangling_href_quote ?tag" by code_simp
  have t3: "\<not> closes_anchor ?rest" by (simp add: closes_anchor_def)
  have t4: "CHR ''<'' \<notin> set []" by simp
  have nested: "CHR ''>'' \<notin> set ?tag \<and> CHR ''<'' \<notin> set [] \<and> \<not> dangling_href_quote ?tag \<and>
      \<not> closes_anchor ?rest"
    by (intro conjI t1 t2 t3 t4)
  note r = c9n[THEN conjunct2, THEN mp, OF nested]
  from r[THEN conjunct1] have b: "match linkRegex (''<a href='' @ [CHR 0x22] @
      ''https://target.com/'' @ [CHR 0x22] @ ''><b>Target</b></a>'') = []"
    by simp
  have page: "nested_anchor_page = ?pre @ [CHR ''<'', CHR ''a''] @ ?tag @ ''>'' @ [] @ ''<'' @ ?rest"
    by (simp add: nested_anchor_page_def)
  have others: "\<forall>p w post v itext l.
      nested_anchor_page = p @ w @ post \<and> length p \<noteq> length ?pre \<and> anchor_element w v itext \<and>
      CHR ''<'' \<notin> set itext \<and> href l = trim v \<longrightarrow>
      \<not> points_to sample_URL ''https://partner.example/nested'' ''target.com'' l"
  proof (intro allI impI)
    fix p w post v itext and l :: link
    assume h: "nested_anchor_page = p @ w @ post \<and> length p \<noteq> length ?pre \<and>
      anchor_element w v itext \<and> CHR ''<'' \<notin> set itext \<and> href l = trim v"
    note e = h[THEN conjunct1] and d = h[THEN conjunct2, THEN conjunct1]
      and ae = h[THEN conjunct2, THEN conjunct2, THEN conjunct1]
    from ae have "starts_anchor (w @ post)" by (rule anchor_element_starts)
    with e have "length p = 16" by (rule nested_page_one_anchor_start)
    with d have False by simp
    then show "\<not> points_to sample_URL ''https://partner.example/nested'' ''target.com'' l" ..
  qed
  have hyp: "nested_anchor_page = ?pre @ [CHR ''<'', CHR ''a''] @ ?tag @ ''>'' @ [] @ ''<'' @ ?rest \<and>
      fetchPage (Suc 0) sample_net sample_URL ''https://partner.example/nested''
        = Some (Fulfilled nested_anchor_page) \<and>
      (\<forall>p w post v itext l.
        nested_anchor_page = p @ w @ post \<and> length p \<noteq> length ?pre \<and> anchor_element w v itext \<and>
        CHR ''<'' \<notin> set itext \<and> href l = trim v \<longrightarrow>
        \<not> points_to sample_URL ''https://partner.example/nested'' ''target.com'' l)"
    by (intro conjI page fetch_nested_page others)
  note v = r[THEN conjunct2, THEN conjunct2, THEN mp, OF hyp]
  show ?thesis by (intro conjI a b v)
qed

section \<open>Properties of bids\<close>

text \<open>
  Claim C6: \<open>createBid\<close> rejects every seeking bid that lacks a positive sats offer. The
  check is \<open>!bid.sats\<close>, so a seeking bid with \<open>sats = -5\<close> passes it and is handed to
  \<open>postBid\<close>.
\<close>

theorem C6_negative_sats_accepted_counterexample:
  "createBid publish_log
     \<lparr>bid_type = JStr ''seeking'', bid_industry = JStr ''plumbing'', sats = JNum (- 5)\<rparr> []
   = (Inr (),
      [\<lparr>bid_type = JStr ''seeking'', bid_industry = JStr ''plumbing'', sats = JNum (- 5)\<rparr>])
   \<and> \<not> (0::int) < - 5"
  by (simp add: createBid_def publish_log_def)

text \<open>
  Claim C6 as amended: \<open>createBid\<close> rejects, before \<open>postBid\<close> is called and leaving the
  world as it is, every bid whose type is not \<open>seeking\<close> or \<open>offering\<close>, every bid whose
  industry is missing or empty, and every seeking bid whose \<open>sats\<close> is falsy (missing,
  \<open>null\<close>, 0, NaN, empty or \<open>false\<close>); every other bid is passed to \<open>postBid\<close>.
\<close>

theorem C6_createBid_validation:
  "(bid_type b \<in> set [JStr ''seeking'', JStr ''offering''] \<and> truthy (bid_industry b) \<and>
      (bid_type b = JStr ''seeking'' \<longrightarrow> truthy (sats b))
     \<longrightarrow> createBid postBid b w = (case postBid b w of (r, w') \<Rightarrow> (Inr r, w')))
   \<and> (\<not> (bid_type b \<in> set [JStr ''seeking'', JStr ''offering''] \<and> truthy (bid_industry b) \<and>
      (bid_type b = JStr ''seeking'' \<longrightarrow> truthy (sats b)))
     \<longrightarrow> (\<exists>msg. createBid postBid b w = (Inl msg, w)))"
  by (auto simp: createBid_def)

theorem C6_createBid_validation_witness:
  "createBid publish_log
     \<lparr>bid_type = JStr ''offering'', bid_industry = JStr ''roofing'', sats = JUndefined\<rparr> []
   = (Inr (),
      [\<lparr>bid_type = JStr ''offering'', bid_industry = JStr ''roofing'', sats = JUndefined\<rparr>])
   \<and> (\<exists>msg. createBid publish_log
     \<lparr>bid_type = JStr ''seeking'', bid_industry = JStr ''plumbing'', sats = JNum 0\<rparr> []
       = (Inl msg, []))"
  using
    C6_createBid_validation[of
      "\<lparr>bid_type = JStr ''offering'', bid_industry = JStr ''roofing'', sats = JUndefined\<rparr>"
      publish_log "[]"]
    C6_createBid_validation[of
      "\<lparr>bid_type = JStr ''seeking'', bid_industry = JStr ''plumbing'', sats = JNum 0\<rparr>"
      publish_log "[]"]
  by (simp add: publish_log_def)

lemma print_bids_ok: "\<forall>e \<in> set es. print_bid e = None \<Longrightarrow> print_bids print_bid es = Inr ()"
  by (induction es) auto


lemma queryBids_returns:
  assumes "\<forall>x \<in> set (activeBids now (querySync f log)). print_bid x = None"
  shows "queryBids print_bid querySync f now log = (Inr (activeBids now (querySync f log)), log)"
  using print_bids_ok[OF assms] by (simp add: queryBids_def Let_def)


lemma digit_of_decimal: "k < 10 \<Longrightarrow> digit_of 10 (''0123456789'' ! k) = Some k"
proof -
  assume "k < 10"
  then have "k \<in> {0, 1, 2, 3, 4, 5, 6, 7, 8, 9}" by auto
  then show ?thesis
    by (auto simp: digit_of_def digit_table_def)
qed

lemma show_nat_digits: "list_all (\<lambda>c. digit_of 10 c \<noteq> None) (show_nat n)"
proof (induction n rule: show_nat.induct)
  case (1 n)
  show ?case
  proof (cases "n < 10")
    case True
    then show ?thesis by (simp add: show_nat.simps[of n] digit_of_decimal)
  next
    case False
    with 1 show ?thesis by (simp add: show_nat.simps[of n] digit_of_decimal)
  qed
qed

lemma show_nat_not_empty: "show_nat n \<noteq> []"
  by (simp add: show_nat.simps[of n])

lemma digits_value_snoc:
  "digits_value r (ds @ [c]) =
     digits_value r ds * int r + (case digit_of r c of Some d \<Rightarrow> int d | None \<Rightarrow> 0)"
  by (simp add: digits_value_def)

lemma digits_value_show_nat: "digits_value 10 (show_nat n) = int n"
proof (induction n rule: show_nat.induct)
  case (1 n)
  show ?case
  proof (cases "n < 10")
    case True
    then show ?thesis by (simp add: show_nat.simps[of n] digits_value_def digit_of_decimal)
  next
    case False
    with 1 have "digits_value 10 (show_nat (n div 10)) = int (n div 10)" by simp
    moreover have "int (n div 10) * 10 + int (n mod 10) = int n"
      by (simp add: zdiv_int zmod_int)
    ultimately show ?thesis using False
      by (simp add: show_nat.simps[of n] digits_value_snoc digit_of_decimal)
  qed
qed

lemma startsWith_set: "startsWith s p \<Longrightarrow> set p \<subseteq> set s"
  by (induction s p rule: startsWith.induct) auto

lemma digit_facts:
  "digit_of 10 CHR ''x'' = None" "digit_of 10 CHR ''X'' = None"
  "digit_of 10 CHR ''-'' = None" "digit_of 10 CHR ''+'' = None"
  "list_all (\<lambda>c. digit_of 10 c = None) whitespace"
  by (simp_all add: digit_of_def digit_table_def whitespace_def)

lemma parse_unsigned_show_nat: "parse_unsigned (show_nat n) = Some (int n)"
proof -
  have d: "\<And>c. c \<in> set (show_nat n) \<Longrightarrow> digit_of 10 c \<noteq> None"
    using show_nat_digits[of n] by (simp add: list_all_iff)
  have "CHR ''x'' \<notin> set (show_nat n)" "CHR ''X'' \<notin> set (show_nat n)"
    using d digit_facts(1,2) by blast+
  then have "\<not> startsWith (show_nat n) ''0x''" "\<not> startsWith (show_nat n) ''0X''"
    by (auto dest!: startsWith_set)
  moreover have "takeWhile (\<lambda>c. digit_of 10 c \<noteq> None) (show_nat n) = show_nat n"
    using d by (simp add: takeWhile_eq_all_conv)
  ultimately show ?thesis
    by (simp add: parse_unsigned_def Let_def show_nat_not_empty digits_value_show_nat
        del: takeWhile_eq_all_conv)
qed

lemma parseInt_decimal: "parseInt (Some (show_nat n)) = Some (to_number (int n))"
proof -
  obtain c cs where s: "show_nat n = c # cs"
    using show_nat_not_empty[of n] by (cases "show_nat n") auto
  have d: "digit_of 10 c \<noteq> None"
    using show_nat_digits[of n] s by simp
  have "c \<notin> set whitespace" "c \<noteq> CHR ''-''" "c \<noteq> CHR ''+''"
    using d digit_facts(3,4,5) by (auto simp: list_all_iff)
  then show ?thesis
    using parse_unsigned_show_nat[of n] by (simp add: parseInt_def s)
qed

lemma bid_active_decimal:
  assumes "find_expiry (tags e) = Some t" "tag_value t = Some (show_nat n)"
  shows "bid_active now e \<longleftrightarrow> 2 ^ 1024 - 2 ^ 970 \<le> int n \<or> now < int n"
proof -
  have "- (2 ^ 1024 - 2 ^ 970) < (0::int)" by simp
  then have "\<not> int n \<le> - (2 ^ 1024 - 2 ^ 970)" by linarith
  then show ?thesis
    using assms by (simp add: bid_active_def parseInt_decimal to_number_def)
qed

lemma parseInt_200: "parseInt (tag_value [''expiry'', ''200'']) = Some (Finite 200)"
  by (simp add: parseInt_def parse_unsigned_def digit_of_def digit_table_def
      digits_value_def whitespace_def tag_value_def to_number_def Let_def)

lemma expiring_bid_tag: "find_expiry (tags expiring_bid) = Some [''expiry'', ''200'']"
  by (simp add: expiring_bid_def find_expiry_def)

lemma garbled_bid_tag: "find_expiry (tags garbled_bid) = Some [''expiry'', ''200'']"
  by (simp add: garbled_bid_def find_expiry_def)

lemma expiring_bid_active: "bid_active now expiring_bid \<longleftrightarrow> now < 200"
  by (simp add: bid_active_def expiring_bid_tag parseInt_200)

lemma garbled_bid_active: "bid_active now garbled_bid \<longleftrightarrow> now < 200"
  by (simp add: bid_active_def garbled_bid_tag parseInt_200)

lemma open_ended_bid_active: "bid_active now open_ended_bid"
  by (simp add: bid_active_def open_ended_bid_def find_expiry_def)

lemma sample_printer_values:
  "sample_printer expiring_bid = None" "sample_printer open_ended_bid = None"
  "sample_printer overflowing_expiry_event = None"
  "sample_printer garbled_bid = Some (SyntaxError ''Unexpected token in JSON'')"
  by (simp_all add: sample_printer_def expiring_bid_def open_ended_bid_def
      overflowing_expiry_event_def garbled_bid_def)

lemma show_nat_200: "show_nat 200 = ''200''"
  by (simp add: show_nat.simps[of 200] show_nat.simps[of 20] show_nat.simps[of 2])

text \<open>
  Claim C7: a bid with an expiry timestamp is among the results of \<open>queryBids\<close> exactly
  when the query time is before that timestamp. The filter decides that, but the list it
  gives is returned only after the printing loop, which parses the content of every active
  event inside no \<open>try\<close>. When the relays return, besides a bid that expires at 200, an
  event of the same expiry whose content is no JSON, at the query time 100 both are
  active, \<open>JSON.parse\<close> throws on the second, \<open>queryBids\<close> is rejected and the first
  bid, though active, is in no result. Alone, the first bid is returned.
\<close>

theorem C7_active_bid_lost_to_unreadable_event:
  "find_expiry (tags expiring_bid) = Some [''expiry'', ''200''] \<and>
   parseInt (tag_value [''expiry'', ''200'']) = Some (Finite 200) \<and>
   bid_active 100 expiring_bid \<and>
   queryBids sample_printer whole_log None 100 [expiring_bid, garbled_bid] =
     (Inl (SyntaxError ''Unexpected token in JSON''), [expiring_bid, garbled_bid]) \<and>
   queryBids sample_printer whole_log None 100 [expiring_bid] =
     (Inr [expiring_bid], [expiring_bid])"
  by (simp add: expiring_bid_tag parseInt_200 queryBids_def Let_def activeBids_def
      whole_log_def expiring_bid_active garbled_bid_active sample_printer_values)

text \<open>
  What claim C7 says holds whenever the printing loop completes on every active event:
  \<open>queryBids\<close> then returns a list, a bid whose \<open>expiry\<close> tag holds the decimal
  rendering of a timestamp (as \<open>postBid\<close> writes it), below the bound at which
  \<open>parseInt\<close> gives \<open>Infinity\<close>, is in that list exactly when the query time is
  before the timestamp, and the log of the relays is as it was.
\<close>

theorem queryBids_includes_iff_before_expiry:
  assumes "\<forall>x \<in> set (activeBids now (querySync f log)). print_bid x = None"
    and "e \<in> set (querySync f log)"
    and "find_expiry (tags e) = Some t"
    and "tag_value t = Some (show_nat n)"
    and "int n < 2 ^ 1024 - 2 ^ 970"
  shows "\<exists>r. queryBids print_bid querySync f now log = (Inr r, log) \<and>
     (e \<in> set r \<longleftrightarrow> now < int n)"
  using assms(2,5) bid_active_decimal[OF assms(3,4), of now]
  unfolding queryBids_returns[of now querySync f log print_bid, OF assms(1)]
  by (simp add: activeBids_def)

theorem queryBids_includes_iff_before_expiry_witness:
  "queryBids sample_printer whole_log None 100 [open_ended_bid, expiring_bid] =
     (Inr [open_ended_bid, expiring_bid], [open_ended_bid, expiring_bid]) \<and>
   queryBids sample_printer whole_log None 200 [open_ended_bid, expiring_bid] =
     (Inr [open_ended_bid], [open_ended_bid, expiring_bid])"
proof -
  let ?log = "[open_ended_bid, expiring_bid]"
  have h1: "\<And>now. \<forall>x \<in> set (activeBids now (whole_log None ?log)). sample_printer x = None"
    by (auto simp: activeBids_def whole_log_def sample_printer_values)
  have h2: "expiring_bid \<in> set (whole_log None ?log)" by (simp add: whole_log_def)
  have h4: "tag_value [''expiry'', ''200''] = Some (show_nat 200)"
    by (simp add: tag_value_def show_nat_200)
  have h5: "int 200 < 2 ^ 1024 - 2 ^ 970" by simp
  note q = queryBids_includes_iff_before_expiry[where querySync = whole_log and f = None
      and log = ?log and print_bid = sample_printer and e = expiring_bid
      and t = "[''expiry'', ''200'']" and n = 200, OF h1 h2 expiring_bid_tag h4 h5]
  from q[of 100] obtain r where
    r: "queryBids sample_printer whole_log None 100 ?log = (Inr r, ?log)" "expiring_bid \<in> set r"
    by auto
  from q[of 200] obtain r' where
    r': "queryBids sample_printer whole_log None 200 ?log = (Inr r', ?log)"
      "expiring_bid \<notin> set r'"
    by auto
  have s: "\<And>now. \<exists>r. queryBids sample_printer whole_log None now ?log = (Inr r, ?log) \<and>
      (r = [open_ended_bid] \<or> r = ?log)"
    by (simp add: queryBids_def Let_def activeBids_def whole_log_def open_ended_bid_active
        sample_printer_values)
  have ne: "expiring_bid \<noteq> open_ended_bid"
    by (simp add: expiring_bid_def open_ended_bid_def)
  from s[of 100] r ne have "queryBids sample_printer whole_log None 100 ?log = (Inr ?log, ?log)"
    by auto
  moreover from s[of 200] r' have
    "queryBids sample_printer whole_log None 200 ?log = (Inr [open_ended_bid], ?log)"
    by auto
  ultimately show ?thesis by simp
qed







section \<open>Properties of the negotiation state machine\<close>

text \<open>
  Claim C5: a message that is not a valid transition from the Deal's current status, a
  second \<open>accept\<close> on an \<open>ACCEPTED\<close> Deal in particular, is appended to the
  \<open>messageLog\<close> and leaves the status as it is.
\<close>

theorem C5_invalid_message_logged_status_kept:
  assumes "transition (status d) (variant m) = None \<or>
           (status d = ACCEPTED \<and> (\<exists>p. variant m = Accept p))"
  shows "status (apply_message d m) = status d \<and>
         messageLog (apply_message d m) = messageLog d @ [m]"
  using assms by (auto simp: apply_message_def)

theorem C5_invalid_message_logged_status_kept_witness:
  "status (apply_message
      \<lparr>initiator = ''npub1buyer'', counterparty = ''npub1seller'', status = ACCEPTED,
       messageLog = [\<lparr>variant = Accept ''lnbc50u1'', timestamp = 10\<rparr>],
       failure_reason = None\<rparr>
      \<lparr>variant = Accept ''lnbc50u1'', timestamp = 11\<rparr>) = ACCEPTED
   \<and> messageLog (apply_message
      \<lparr>initiator = ''npub1buyer'', counterparty = ''npub1seller'', status = ACCEPTED,
       messageLog = [\<lparr>variant = Accept ''lnbc50u1'', timestamp = 10\<rparr>],
       failure_reason = None\<rparr>
      \<lparr>variant = Accept ''lnbc50u1'', timestamp = 11\<rparr>)
     = [\<lparr>variant = Accept ''lnbc50u1'', timestamp = 10\<rparr>,
        \<lparr>variant = Accept ''lnbc50u1'', timestamp = 11\<rparr>]"
proof -
  let ?d = "\<lparr>initiator = ''npub1buyer'', counterparty = ''npub1seller'', status = ACCEPTED,
       messageLog = [\<lparr>variant = Accept ''lnbc50u1'', timestamp = 10\<rparr>],
       failure_reason = None\<rparr>"
  let ?m = "\<lparr>variant = Accept ''lnbc50u1'', timestamp = 11\<rparr>"
  have h: "transition (status ?d) (variant ?m) = None \<or>
           (status ?d = ACCEPTED \<and> (\<exists>p. variant ?m = Accept p))"
    by simp
  from C5_invalid_message_logged_status_kept[OF h] show ?thesis by simp
qed

end
